theory Spec2Isabelle
  imports Main "HOL-Library.Word"
begin

section \<open>JavaScript strings\<close>

text \<open>
  A JavaScript string is a sequence of 16-bit UTF-16 code units; \<open>length\<close>, \<open>indexOf\<close>,
  \<open>slice\<close>, \<open>trim\<close> and the regular expressions of \<open>program.ts\<close> all work on code
  units. \<open>js\<close> turns an ASCII literal into such a string.
\<close>

type_synonym jschar = "16 word"
type_synonym jsstring = "jschar list"

definition js :: "string \<Rightarrow> jsstring" where
  "js s = map of_char s"

text \<open>
  \<open>String.prototype.trim\<close> removes the code units of ECMAScript's WhiteSpace and
  LineTerminator productions from both ends.
\<close>

definition is_line_terminator :: "jschar \<Rightarrow> bool" where
  "is_line_terminator c = (c = 0x0A \<or> c = 0x0D \<or> c = 0x2028 \<or> c = 0x2029)"

definition is_white_space :: "jschar \<Rightarrow> bool" where
  "is_white_space c =
     (c = 0x09 \<or> c = 0x0B \<or> c = 0x0C \<or> c = 0x20 \<or> c = 0xA0 \<or> c = 0x1680 \<or>
      (0x2000 \<le> c \<and> c \<le> 0x200A) \<or> c = 0x202F \<or> c = 0x205F \<or> c = 0x3000 \<or>
      c = 0xFEFF \<or> is_line_terminator c)"

definition trimStart :: "jsstring \<Rightarrow> jsstring" where
  "trimStart s = dropWhile is_white_space s"

definition trimEnd :: "jsstring \<Rightarrow> jsstring" where
  "trimEnd s = rev (dropWhile is_white_space (rev s))"

definition trim :: "jsstring \<Rightarrow> jsstring" where
  "trim s = trimEnd (trimStart s)"

text \<open>\<open>s.split(sep)\<close> for a one-code-unit separator: never the empty list.\<close>

fun split :: "jsstring \<Rightarrow> jschar \<Rightarrow> jsstring list" where
  "split [] sep = [[]]"
| "split (c # cs) sep =
     (case split cs sep of
        [] \<Rightarrow> [[c]]
      | x # xs \<Rightarrow> if c = sep then [] # x # xs else (c # x) # xs)"

text \<open>\<open>s.indexOf(c)\<close>: the first position of the code unit, or \<open>-1\<close>.\<close>

definition indexOf :: "jsstring \<Rightarrow> jschar \<Rightarrow> int" where
  "indexOf s c = (if c \<in> set s then int (length (takeWhile (\<lambda>d. d \<noteq> c) s)) else - 1)"

text \<open>
  \<open>s.slice(start, end)\<close> and \<open>s.slice(start)\<close>: a negative index counts from the end,
  and both are clamped to the string.
\<close>

definition slice_index :: "int \<Rightarrow> nat \<Rightarrow> nat" where
  "slice_index i n = (if i < 0 then nat (max (int n + i) 0) else min (nat i) n)"

definition slice :: "jsstring \<Rightarrow> int \<Rightarrow> int \<Rightarrow> jsstring" where
  "slice s start stop =
     (let from = slice_index start (length s); to = slice_index stop (length s)
      in take (to - from) (drop from s))"

definition slice_from :: "jsstring \<Rightarrow> int \<Rightarrow> jsstring" where
  "slice_from s start = drop (slice_index start (length s)) s"

definition startsWith :: "jsstring \<Rightarrow> jsstring \<Rightarrow> bool" where
  "startsWith s p = (take (length p) s = p)"

text \<open>\<open>s.includes(sub)\<close>: \<open>sub\<close> occurs somewhere in \<open>s\<close>.\<close>

fun includes_str :: "jsstring \<Rightarrow> jsstring \<Rightarrow> bool" where
  "includes_str [] sub = (sub = [])"
| "includes_str (c # cs) sub = (startsWith (c # cs) sub \<or> includes_str cs sub)"

text \<open>
  \<open>s.replace(/^"(.*)"$/, "$1")\<close>: the pattern has no flags, so \<open>^\<close> and \<open>$\<close> are the ends
  of the string and \<open>.\<close> is any code unit but a line terminator. The string matches when
  it starts and ends with a double quote (two different positions) and has no line
  terminator between them; it is then replaced by what is between the quotes.
\<close>

definition unquote :: "jsstring \<Rightarrow> jsstring" where
  "unquote s =
     (if 2 \<le> length s \<and> hd s = 0x22 \<and> last s = 0x22 \<and>
         list_all (\<lambda>c. \<not> is_line_terminator c) (butlast (tl s))
      then butlast (tl s) else s)"

text \<open>
  \<open>/^[a-zA-Z0-9._-]+\/[a-zA-Z0-9._-]+$/.test(s)\<close>: the class excludes the slash, so
  the first run is all of \<open>s\<close> before its first slash.
\<close>

definition is_repo_char :: "jschar \<Rightarrow> bool" where
  "is_repo_char c =
     ((0x61 \<le> c \<and> c \<le> 0x7A) \<or> (0x41 \<le> c \<and> c \<le> 0x5A) \<or> (0x30 \<le> c \<and> c \<le> 0x39) \<or>
      c = 0x2E \<or> c = 0x5F \<or> c = 0x2D)"

definition valid_repo_format :: "jsstring \<Rightarrow> bool" where
  "valid_repo_format s =
     (let owner = takeWhile (\<lambda>c. c \<noteq> 0x2F) s; rest = dropWhile (\<lambda>c. c \<noteq> 0x2F) s
      in owner \<noteq> [] \<and> list_all is_repo_char owner \<and>
         rest \<noteq> [] \<and> tl rest \<noteq> [] \<and> list_all is_repo_char (tl rest))"

text \<open>A number in a template literal: its decimal digits.\<close>

fun digits :: "nat \<Rightarrow> jsstring" where
  "digits n = (if n < 10 then [of_nat (48 + n)] else digits (n div 10) @ [of_nat (48 + n mod 10)])"


section \<open>Effects, errors and services\<close>

text \<open>
  \<open>program.ts\<close> is written against four injected services (\<open>Core\<close>, \<open>Git\<close> with its
  \<open>GitRepo\<close> objects, \<open>FileSystem\<close>, \<open>Path\<close>). The run is modelled over an arbitrary
  world \<open>'w\<close> (disk, remotes, network) that the services read and change, together with
  the trace of the calls made so far. Every call is recorded when it is made, whether it
  then succeeds or fails.
\<close>

datatype span_value =
  StringValue jsstring
| BoolValue bool
| PathsValue "(jsstring \<times> jsstring) list"

datatype event =
  CoreSetSecret jsstring
| CoreSetOutput jsstring jsstring
| CoreWarning jsstring
| CoreInfo jsstring
| AnnotateCurrentSpan jsstring span_value
| GitConfigure jsstring jsstring
| GitClone jsstring jsstring
| GitRepoFromPath jsstring
| RepoStatus
| RepoAdd "jsstring list"
| RepoCommit jsstring
| RepoPush
| RepoRevParse jsstring
| FsMakeTempDirectory
| FsMakeDirectory jsstring
| FsRename jsstring jsstring
| FsRemove jsstring

text \<open>
  The failures of a run: \<open>new Error(message)\<close> raised by the program itself, a
  \<open>PlatformError\<close> of a service call, and the \<open>URIError\<close> that \<open>encodeURIComponent\<close>
  throws.
\<close>

datatype 'pe error =
  Error jsstring
| PlatformError 'pe
| URIError

type_synonym ('a, 'w, 'pe) effect =
  "event list \<times> 'w \<Rightarrow> ('pe error + 'a) \<times> event list \<times> 'w"

definition succeed :: "'a \<Rightarrow> ('a, 'w, 'pe) effect" where
  "succeed x = (\<lambda>s. (Inr x, s))"

definition fail :: "'pe error \<Rightarrow> ('a, 'w, 'pe) effect" where
  "fail e = (\<lambda>s. (Inl e, s))"

text \<open>\<open>yield*\<close> inside \<open>Effect.gen\<close>: the first failure ends the generator.\<close>

definition flatMap :: "('a, 'w, 'pe) effect \<Rightarrow> ('a \<Rightarrow> ('b, 'w, 'pe) effect) \<Rightarrow> ('b, 'w, 'pe) effect" where
  "flatMap m f = (\<lambda>s. case m s of (Inl e, s') \<Rightarrow> (Inl e, s') | (Inr x, s') \<Rightarrow> f x s')"

text \<open>A synchronous \<open>void\<close> call of the \<open>Core\<close> service or of the tracer.\<close>

definition emit :: "event \<Rightarrow> (unit, 'w, 'pe) effect" where
  "emit ev = (\<lambda>(tr, w). (Inr (), (tr @ [ev], w)))"

text \<open>A call of a service operation that may fail with a \<open>PlatformError\<close>.\<close>

definition call :: "event \<Rightarrow> ('w \<Rightarrow> ('pe + 'a) \<times> 'w) \<Rightarrow> ('a, 'w, 'pe) effect" where
  "call ev op =
     (\<lambda>(tr, w). case op w of
        (Inl pe, w') \<Rightarrow> (Inl (PlatformError pe), (tr @ [ev], w'))
      | (Inr x, w') \<Rightarrow> (Inr x, (tr @ [ev], w')))"

text \<open>\<open>Git.ts\<close>: the interface \<open>GitRepo\<close> and the service \<open>Git\<close>.\<close>

record ('w, 'pe) GitRepo =
  add :: "jsstring list \<Rightarrow> 'w \<Rightarrow> ('pe + unit) \<times> 'w"
  commit :: "jsstring \<Rightarrow> 'w \<Rightarrow> ('pe + unit) \<times> 'w"
  push :: "'w \<Rightarrow> ('pe + unit) \<times> 'w"
  status :: "'w \<Rightarrow> ('pe + jsstring) \<times> 'w"
  rev_parse :: "jsstring \<Rightarrow> 'w \<Rightarrow> ('pe + jsstring) \<times> 'w"

record ('w, 'pe) Git =
  config :: "jsstring \<Rightarrow> jsstring \<Rightarrow> 'w \<Rightarrow> ('pe + unit) \<times> 'w"
  repo_from_path :: "jsstring \<Rightarrow> 'w \<Rightarrow> ('pe + ('w, 'pe) GitRepo) \<times> 'w"
  clone :: "jsstring \<Rightarrow> jsstring \<Rightarrow> 'w \<Rightarrow> ('pe + ('w, 'pe) GitRepo) \<times> 'w"

text \<open>
  The operations of the platform's \<open>FileSystem\<close> and \<open>Path\<close> services that the
  program and its test use (\<open>makeDirectory\<close> is always called with \<open>recursive: true\<close>).
\<close>

record ('w, 'pe) FileSystem =
  makeTempDirectory :: "'w \<Rightarrow> ('pe + jsstring) \<times> 'w"
  makeDirectory :: "jsstring \<Rightarrow> 'w \<Rightarrow> ('pe + unit) \<times> 'w"
  rename :: "jsstring \<Rightarrow> jsstring \<Rightarrow> 'w \<Rightarrow> ('pe + unit) \<times> 'w"
  remove :: "jsstring \<Rightarrow> 'w \<Rightarrow> ('pe + unit) \<times> 'w"

record Path =
  join :: "jsstring list \<Rightarrow> jsstring"
  dirname :: "jsstring \<Rightarrow> jsstring"

text \<open>
  \<open>Core.ts\<close>: \<open>get_input\<close> reads an input; \<open>set_secret\<close>, \<open>set_output\<close>, \<open>warning\<close> and
  \<open>info\<close> return nothing and are recorded in the trace.
\<close>

record Core =
  get_input :: "jsstring \<Rightarrow> bool \<Rightarrow> jsstring"

record ('w, 'pe) services =
  core :: Core
  git :: "('w, 'pe) Git"
  fs :: "('w, 'pe) FileSystem"
  path :: Path


section \<open>\<open>program.ts\<close>\<close>

record ActionInputs =
  personal_access_token :: jsstring
  sync_paths :: "(jsstring \<times> jsstring) list"
  source_repo :: jsstring
  destination_repo :: jsstring
  dry_run :: bool

record GitConfig =
  username :: jsstring
  email :: jsstring

subsection \<open>\<open>parse_inputs\<close>\<close>

text \<open>
  The loop \<open>for (const line of sync_paths_input.split("\n"))\<close> of \<open>parse_inputs\<close>, with
  the array \<open>sync_paths\<close> it appends to (here \<open>paths\<close>): \<open>continue\<close> is the recursive call on the
  remaining lines, \<open>core.warning\<close> is recorded in the trace.
\<close>

fun parse_sync_paths ::
  "jsstring list \<Rightarrow> (jsstring \<times> jsstring) list \<Rightarrow> ((jsstring \<times> jsstring) list, 'w, 'pe) effect"
where
  "parse_sync_paths [] paths = succeed paths"
| "parse_sync_paths (line # lines) paths =
     (let trimmed_line = trim line in
      if trimmed_line = [] then parse_sync_paths lines paths
      else
        let colon_index = indexOf trimmed_line 0x3A in
        if colon_index = - 1 then
          (let clean_source = unquote trimmed_line in
           if includes_str clean_source (js ''..'') \<or> startsWith clean_source (js ''/'')
           then
             flatMap
               (emit (CoreWarning
                  (js ''Potentially unsafe path detected and skipped: '' @ clean_source)))
               (\<lambda>_. parse_sync_paths lines paths)
           else parse_sync_paths lines (paths @ [(clean_source, clean_source)]))
        else
          (let source = trim (slice trimmed_line 0 colon_index);
               destination = trim (slice_from trimmed_line (colon_index + 1));
               clean_source = unquote source;
               clean_destination = unquote destination
           in
           if includes_str clean_source (js ''..'') \<or> startsWith clean_source (js ''/'') \<or>
              includes_str clean_destination (js ''..'') \<or>
              startsWith clean_destination (js ''/'')
           then
             flatMap
               (emit (CoreWarning
                  (js ''Potentially unsafe path detected and skipped: '' @ clean_source @
                   js '' -> '' @ clean_destination)))
               (\<lambda>_. parse_sync_paths lines paths)
           else parse_sync_paths lines (paths @ [(clean_source, clean_destination)])))"

definition parse_inputs :: "('w, 'pe) services \<Rightarrow> (ActionInputs, 'w, 'pe) effect" where
  \<open>parse_inputs sv =
     (let personal_access_token = get_input (core sv) (js ''personal_access_token'') True;
          sync_paths_input = get_input (core sv) (js ''sync_paths'') True;
          source_repo = get_input (core sv) (js ''source_repo'') True;
          destination_repo = get_input (core sv) (js ''destination_repo'') True;
          dry_run = (get_input (core sv) (js ''dry_run'') False = js ''true'')
      in
      flatMap (emit (CoreSetSecret personal_access_token)) (\<lambda>_.
      if personal_access_token = [] then
        fail (Error (js ''personal_access_token is required''))
      else if destination_repo = [] then
        fail (Error (js ''destination_repo is required''))
      else if source_repo = [] then
        fail (Error (js ''source_repo is required''))
      else if \<not> valid_repo_format destination_repo then
        fail (Error (js ''Invalid repository format: "'' @ destination_repo @
                     js ''". Expected format: "owner/repo"''))
      else if trim sync_paths_input = [] then
        fail (Error (js ''sync_paths is required''))
      else
        flatMap (parse_sync_paths (split sync_paths_input 0x0A) []) (\<lambda>sync_paths.
        if length sync_paths = 0 then
          fail (Error (js ''No valid sync paths found''))
        else
          succeed
            \<lparr>personal_access_token = personal_access_token,
             sync_paths = sync_paths,
             source_repo = source_repo,
             destination_repo = destination_repo,
             dry_run = dry_run\<rparr>)))\<close>

subsection \<open>\<open>configureGit\<close> and \<open>clone_repo\<close>\<close>

definition configureGit :: "('w, 'pe) services \<Rightarrow> GitConfig \<Rightarrow> (unit, 'w, 'pe) effect" where
  "configureGit sv cfg =
     call (GitConfigure (username cfg) (email cfg)) (config (git sv) (username cfg) (email cfg))"

text \<open>
  The built-in \<open>encodeURIComponent\<close>: the code units of \<open>A-Z a-z 0-9 - _ . ! ~ * ' ( )\<close>
  stay; every other code point is written as the \<open>%XX\<close> of its UTF-8 bytes; a surrogate
  that is not half of a pair makes it throw \<open>URIError\<close> (\<open>None\<close>).
\<close>

definition uri_unreserved :: "jschar \<Rightarrow> bool" where
  "uri_unreserved c =
     ((0x61 \<le> c \<and> c \<le> 0x7A) \<or> (0x41 \<le> c \<and> c \<le> 0x5A) \<or> (0x30 \<le> c \<and> c \<le> 0x39) \<or>
      c = 0x2D \<or> c = 0x5F \<or> c = 0x2E \<or> c = 0x21 \<or> c = 0x7E \<or> c = 0x2A \<or>
      c = 0x27 \<or> c = 0x28 \<or> c = 0x29)"

definition hex_digit :: "nat \<Rightarrow> jschar" where
  "hex_digit n = (if n < 10 then of_nat (48 + n) else of_nat (55 + n))"

definition percent_byte :: "nat \<Rightarrow> jsstring" where
  "percent_byte b = [0x25, hex_digit (b div 16), hex_digit (b mod 16)]"

definition utf8 :: "nat \<Rightarrow> nat list" where
  "utf8 cp =
     (if cp < 0x80 then [cp]
      else if cp < 0x800 then [0xC0 + cp div 0x40, 0x80 + cp mod 0x40]
      else if cp < 0x10000 then
        [0xE0 + cp div 0x1000, 0x80 + (cp div 0x40) mod 0x40, 0x80 + cp mod 0x40]
      else
        [0xF0 + cp div 0x40000, 0x80 + (cp div 0x1000) mod 0x40,
         0x80 + (cp div 0x40) mod 0x40, 0x80 + cp mod 0x40])"

definition percent_encode :: "nat \<Rightarrow> jsstring" where
  "percent_encode cp = concat (map percent_byte (utf8 cp))"

fun encodeURIComponent :: "jsstring \<Rightarrow> jsstring option" where
  "encodeURIComponent [] = Some []"
| "encodeURIComponent (c # cs) =
     (if uri_unreserved c then map_option ((#) c) (encodeURIComponent cs)
      else if 0xDC00 \<le> c \<and> c \<le> 0xDFFF then None
      else if 0xD800 \<le> c \<and> c \<le> 0xDBFF then
        (case cs of
           [] \<Rightarrow> None
         | d # ds \<Rightarrow>
             if 0xDC00 \<le> d \<and> d \<le> 0xDFFF then
               map_option
                 ((@) (percent_encode
                         (0x10000 + (unat c - 0xD800) * 0x400 + (unat d - 0xDC00))))
                 (encodeURIComponent ds)
             else None)
      else map_option ((@) (percent_encode (unat c))) (encodeURIComponent cs))"

definition clone_repo ::
  "('w, 'pe) services \<Rightarrow> jsstring \<Rightarrow> jsstring \<Rightarrow> jsstring \<Rightarrow> (('w, 'pe) GitRepo, 'w, 'pe) effect"
where
  "clone_repo sv access_token repo dir =
     (case encodeURIComponent access_token of
        None \<Rightarrow> fail URIError
      | Some encoded \<Rightarrow>
          (let repo_url = js ''https://'' @ encoded @ js ''@github.com/'' @ repo @ js ''.git''
           in call (GitClone repo_url dir) (clone (git sv) repo_url dir)))"

subsection \<open>\<open>move_paths\<close>\<close>

text \<open>The loop \<open>for (const [source, destination] of inputs.sync_paths)\<close>.\<close>

fun move_each ::
  "('w, 'pe) services \<Rightarrow> (jsstring \<times> jsstring) list \<Rightarrow> jsstring \<Rightarrow> jsstring \<Rightarrow> (unit, 'w, 'pe) effect"
where
  "move_each sv [] source_clone_dir destination_clone_dir = succeed ()"
| "move_each sv ((source, destination) # rest) source_clone_dir destination_clone_dir =
     (let source_path = join (path sv) [source_clone_dir, source];
          destination_path = join (path sv) [destination_clone_dir, destination];
          destination_dir_path = dirname (path sv) destination_path
      in
      flatMap (call (FsMakeDirectory destination_dir_path)
                 (makeDirectory (fs sv) destination_dir_path)) (\<lambda>_.
      flatMap (call (FsRename source_path destination_path)
                 (rename (fs sv) source_path destination_path)) (\<lambda>_.
      move_each sv rest source_clone_dir destination_clone_dir)))"

definition move_paths ::
  "('w, 'pe) services \<Rightarrow> ActionInputs \<Rightarrow> jsstring \<Rightarrow> jsstring \<Rightarrow> (unit, 'w, 'pe) effect"
where
  "move_paths sv inputs source_clone_dir destination_clone_dir =
     move_each sv (sync_paths inputs) source_clone_dir destination_clone_dir"

subsection \<open>\<open>commit_and_push\<close>\<close>

definition commit_and_push :: "('w, 'pe) GitRepo \<Rightarrow> (jsstring, 'w, 'pe) effect" where
  "commit_and_push repo =
     flatMap (call RepoStatus (status repo)) (\<lambda>status_text.
     if trim status_text = [] then
       flatMap (emit (CoreInfo (js ''No changes detected, skipping commit and push''))) (\<lambda>_.
       succeed [])
     else
       flatMap (call (RepoAdd [js ''.'']) (add repo [js ''.''])) (\<lambda>_.
       let commit_message = js ''chore: Sync files from source repository'' in
       flatMap (call (RepoCommit commit_message) (commit repo commit_message)) (\<lambda>_.
       flatMap (call RepoPush (push repo)) (\<lambda>_.
       flatMap (call (RepoRevParse (js ''HEAD'')) (rev_parse repo (js ''HEAD''))) (\<lambda>commit_hash.
       flatMap (emit (CoreInfo
                  (js ''Successfully pushed changes with commit hash: '' @ commit_hash))) (\<lambda>_.
       succeed commit_hash))))))"

subsection \<open>\<open>program\<close>\<close>

text \<open>
  \<open>for (const [key, value] of Object.entries(inputs)) yield* Effect.annotateCurrentSpan(key, value)\<close>,
  in the key order of the object that \<open>parse_inputs\<close> returns.
\<close>

definition annotate_inputs :: "ActionInputs \<Rightarrow> (unit, 'w, 'pe) effect" where
  "annotate_inputs inputs =
     flatMap (emit (AnnotateCurrentSpan (js ''personal_access_token'')
                (StringValue (personal_access_token inputs)))) (\<lambda>_.
     flatMap (emit (AnnotateCurrentSpan (js ''sync_paths'')
                (PathsValue (sync_paths inputs)))) (\<lambda>_.
     flatMap (emit (AnnotateCurrentSpan (js ''destination_repo'')
                (StringValue (destination_repo inputs)))) (\<lambda>_.
     flatMap (emit (AnnotateCurrentSpan (js ''dry_run'') (BoolValue (dry_run inputs)))) (\<lambda>_.
     emit (AnnotateCurrentSpan (js ''source_repo'') (StringValue (source_repo inputs)))))))"

text \<open>\<open>inputs.sync_paths.forEach(([source, destination], index) => core.info(...))\<close>.\<close>

fun log_sync_paths :: "(jsstring \<times> jsstring) list \<Rightarrow> nat \<Rightarrow> (unit, 'w, 'pe) effect" where
  "log_sync_paths [] index = succeed ()"
| "log_sync_paths ((source, destination) # rest) index =
     flatMap (emit (CoreInfo
                (js ''   '' @ digits (index + 1) @ js ''. '' @ source @ js '' -> '' @ destination)))
       (\<lambda>_. log_sync_paths rest (index + 1))"

text \<open>
  The pictographs that start four of the messages, as the code units of the source
  file's text.
\<close>

definition starting_mark :: jsstring where
  "starting_mark = [0xF0, 0x178, 0x161, 0x20AC]"

definition found_mark :: jsstring where
  "found_mark = [0xF0, 0x178, 0x201C]"

definition dry_run_mark :: jsstring where
  "dry_run_mark = [0xF0, 0x178, 0xA7, 0xAA]"

definition completed_mark :: jsstring where
  "completed_mark = [0xE2, 0x153, 0x2026]"

definition program :: "('w, 'pe) services \<Rightarrow> (unit, 'w, 'pe) effect" where
  "program sv =
     flatMap (parse_inputs sv) (\<lambda>inputs.
     flatMap (annotate_inputs inputs) (\<lambda>_.
     flatMap (emit (CoreInfo
                (starting_mark @ js '' Starting cross-repo sync to '' @ destination_repo inputs @
                 (if dry_run inputs then js '' (DRY RUN)'' else [])))) (\<lambda>_.
     flatMap (emit (CoreInfo
                (found_mark @ js '' Found '' @ digits (length (sync_paths inputs)) @
                 js '' sync path(s):''))) (\<lambda>_.
     flatMap (log_sync_paths (sync_paths inputs) 0) (\<lambda>_.
     if dry_run inputs then
       flatMap (emit (CoreInfo
                  (dry_run_mark @
                   js '' Running in dry-run mode - no actual changes will be made''))) (\<lambda>_.
       succeed ())
     else
       flatMap (call FsMakeTempDirectory (makeTempDirectory (fs sv))) (\<lambda>temp_dir.
       let gitConfig = \<lparr>username = js ''github-actions[bot]'',
                        email = js ''github-actions[bot]@users.noreply.github.com''\<rparr> in
       flatMap (configureGit sv gitConfig) (\<lambda>_.
       let destination_repo_dir = join (path sv) [temp_dir, js ''destination_repo''];
           source_repo_dir = join (path sv) [temp_dir, js ''source_repo''];
           target_dir = join (path sv) [temp_dir, js ''target'']
       in
       flatMap (call (FsMakeDirectory target_dir) (makeDirectory (fs sv) target_dir)) (\<lambda>_.
       flatMap (clone_repo sv (personal_access_token inputs) (destination_repo inputs)
                  destination_repo_dir) (\<lambda>destination_repo_handle.
       flatMap (clone_repo sv (personal_access_token inputs) (source_repo inputs)
                  source_repo_dir) (\<lambda>source_repo_handle.
       flatMap (call (FsRename (join (path sv) [destination_repo_dir, js ''.git''])
                        (join (path sv) [target_dir, js ''.git'']))
                  (rename (fs sv) (join (path sv) [destination_repo_dir, js ''.git''])
                     (join (path sv) [target_dir, js ''.git'']))) (\<lambda>_.
       flatMap (call (GitRepoFromPath target_dir) (repo_from_path (git sv) target_dir))
         (\<lambda>target_repo.
       flatMap (move_paths sv inputs source_repo_dir target_dir) (\<lambda>_.
       flatMap (commit_and_push target_repo) (\<lambda>commit_hash.
       flatMap (emit (CoreSetOutput (js ''commit_hash'') commit_hash)) (\<lambda>_.
       emit (CoreInfo
               (completed_mark @ js '' Cross-repo sync completed successfully'')))))))))))))))))"


section \<open>The parser, line by line\<close>

text \<open>
  The pieces of the loop body of \<open>parse_inputs\<close>, named: the two sides the loop extracts
  from a non-blank line, its safety test, and the warning it logs for a line it skips.
  \<open>parsed_mappings\<close> and \<open>skip_warnings\<close> are what the loop pushes and what it logs over
  all lines; lemma \<open>parse_sync_paths_eq\<close> shows that this is the loop.
\<close>

definition unsafe_path :: "jsstring \<Rightarrow> bool" where
  "unsafe_path p = (includes_str p (js ''..'') \<or> startsWith p (js ''/''))"

definition extracted_sides :: "jsstring \<Rightarrow> jsstring \<times> jsstring" where
  "extracted_sides line =
     (let trimmed_line = trim line; colon_index = indexOf trimmed_line 0x3A in
      if colon_index = - 1 then (unquote trimmed_line, unquote trimmed_line)
      else (unquote (trim (slice trimmed_line 0 colon_index)),
            unquote (trim (slice_from trimmed_line (colon_index + 1)))))"

definition skip_warning :: "jsstring \<Rightarrow> jsstring" where
  "skip_warning line =
     (if indexOf (trim line) 0x3A = - 1
      then js ''Potentially unsafe path detected and skipped: '' @ fst (extracted_sides line)
      else js ''Potentially unsafe path detected and skipped: '' @ fst (extracted_sides line) @
           js '' -> '' @ snd (extracted_sides line))"

definition skipped_line :: "jsstring \<Rightarrow> bool" where
  "skipped_line line =
     (unsafe_path (fst (extracted_sides line)) \<or> unsafe_path (snd (extracted_sides line)))"

fun parsed_mappings :: "jsstring list \<Rightarrow> (jsstring \<times> jsstring) list" where
  "parsed_mappings [] = []"
| "parsed_mappings (line # lines) =
     (if trim line = [] \<or> skipped_line line then parsed_mappings lines
      else extracted_sides line # parsed_mappings lines)"

fun skip_warnings :: "jsstring list \<Rightarrow> jsstring list" where
  "skip_warnings [] = []"
| "skip_warnings (line # lines) =
     (if trim line \<noteq> [] \<and> skipped_line line then skip_warning line # skip_warnings lines
      else skip_warnings lines)"

section \<open>The platform's POSIX \<open>Path\<close>\<close>

text \<open>
  \<open>Path.layer\<close>, which the test provides: \<open>join\<close> and \<open>dirname\<close> of Node's
  \<open>path.posix\<close>. \<open>normalize_segments\<close> is the scan of \<open>normalizeString\<close> over the
  segments between slashes: empty and \<open>.\<close> segments are dropped, \<open>..\<close> removes the segment
  before it, and is kept only where nothing is left to remove and the path is relative.
  \<open>dirname\<close> cuts the path before the last slash that is followed by a segment, and
  never before the first code unit.
\<close>

fun intercalate :: "jsstring \<Rightarrow> jsstring list \<Rightarrow> jsstring" where
  "intercalate sep [] = []"
| "intercalate sep [x] = x"
| "intercalate sep (x # y # ys) = x @ sep @ intercalate sep (y # ys)"

fun normalize_segments :: "jsstring list \<Rightarrow> bool \<Rightarrow> jsstring list \<Rightarrow> jsstring list" where
  "normalize_segments [] allowAboveRoot res = res"
| "normalize_segments (seg # segs) allowAboveRoot res =
     (if seg = [] \<or> seg = js ''.'' then normalize_segments segs allowAboveRoot res
      else if seg = js ''..'' then
        (if res \<noteq> [] \<and> last res \<noteq> js ''..''
         then normalize_segments segs allowAboveRoot (butlast res)
         else if allowAboveRoot then normalize_segments segs allowAboveRoot (res @ [js ''..''])
         else normalize_segments segs allowAboveRoot res)
      else normalize_segments segs allowAboveRoot (res @ [seg]))"

definition normalizeString :: "jsstring \<Rightarrow> bool \<Rightarrow> jsstring" where
  "normalizeString p allowAboveRoot =
     intercalate (js ''/'') (normalize_segments (split p 0x2F) allowAboveRoot [])"

definition posix_normalize :: "jsstring \<Rightarrow> jsstring" where
  "posix_normalize p =
     (if p = [] then js ''.''
      else
        let isAbsolute = (hd p = 0x2F);
            trailingSeparator = (last p = 0x2F);
            q = normalizeString p (\<not> isAbsolute)
        in
        if q = [] then (if isAbsolute then js ''/'' else if trailingSeparator then js ''./'' else js ''.'')
        else
          let q' = (if trailingSeparator then q @ js ''/'' else q)
          in if isAbsolute then js ''/'' @ q' else q')"

definition posix_join :: "jsstring list \<Rightarrow> jsstring" where
  "posix_join args =
     (let joined = intercalate (js ''/'') (filter (\<lambda>arg. arg \<noteq> []) args)
      in if joined = [] then js ''.'' else posix_normalize joined)"

definition posix_dirname :: "jsstring \<Rightarrow> jsstring" where
  "posix_dirname p =
     (if p = [] then js ''.''
      else
        let hasRoot = (hd p = 0x2F);
            rest = dropWhile (\<lambda>c. c \<noteq> 0x2F) (dropWhile (\<lambda>c. c = 0x2F) (rev (tl p)));
            end_index = length rest
        in
        if rest = [] then (if hasRoot then js ''/'' else js ''.'')
        else if hasRoot \<and> end_index = 1 then js ''//''
        else take end_index p)"

definition posix_path :: Path where
  "posix_path = \<lparr>join = posix_join, dirname = posix_dirname\<rparr>"


section \<open>The services of the test\<close>

text \<open>
  The services that the test \<open>should run\<close> provides: \<open>TestCore\<close>, \<open>TestGit\<close> with
  \<open>TestGitRepo\<close>, and a mock \<open>FileSystem\<close> over an in-memory volume. The volume is the
  list of its files (path and content); a directory is there when a file lies under it, so
  \<open>makeDirectory\<close> changes nothing, and \<open>rename\<close> moves a file or everything under a
  directory, replacing what was at the destination. \<open>inputs_core\<close> is \<open>TestCore\<close> with
  other inputs; a name that \<open>program\<close> never asks for (the test throws there) reads as the
  empty string.
\<close>

datatype mock_error = NotFound

type_synonym volume = "(jsstring \<times> jsstring) list"

definition under :: "jsstring \<Rightarrow> jsstring \<Rightarrow> bool" where
  "under dir p = (p = dir \<or> startsWith p (dir @ js ''/''))"

definition vol_write :: "jsstring \<Rightarrow> jsstring \<Rightarrow> volume \<Rightarrow> volume" where
  "vol_write p content vol = (p, content) # filter (\<lambda>(q, c). q \<noteq> p) vol"

definition vol_rename :: "jsstring \<Rightarrow> jsstring \<Rightarrow> volume \<Rightarrow> (mock_error + unit) \<times> volume" where
  "vol_rename src dst vol =
     (if list_ex (\<lambda>(p, c). under src p) vol then
        (Inr (),
         map (\<lambda>(p, c). (dst @ drop (length src) p, c)) (filter (\<lambda>(p, c). under src p) vol) @
         filter (\<lambda>(p, c). \<not> under src p \<and> \<not> under dst p) vol)
      else (Inl NotFound, vol))"

definition vol_remove :: "jsstring \<Rightarrow> volume \<Rightarrow> (mock_error + unit) \<times> volume" where
  "vol_remove p vol = (Inr (), filter (\<lambda>(q, c). \<not> under p q) vol)"

definition mockFileSystemLayer :: "(volume, mock_error) FileSystem" where
  "mockFileSystemLayer =
     \<lparr>makeTempDirectory = (\<lambda>vol. (Inr (js ''/tmp/cross-repo-sync''), vol)),
      makeDirectory = (\<lambda>p vol. (Inr (), vol)),
      rename = vol_rename,
      remove = vol_remove\<rparr>"

definition TestGitRepo :: "('w, 'pe) GitRepo" where
  "TestGitRepo =
     \<lparr>add = (\<lambda>paths w. (Inr (), w)),
      commit = (\<lambda>message w. (Inr (), w)),
      push = (\<lambda>w. (Inr (), w)),
      status = (\<lambda>w. (Inr (js '' - lots'' @ [0x0A] @ js '' - of'' @ [0x0A] @ js '' - changes''), w)),
      rev_parse = (\<lambda>ref w. (Inr (js ''test-rev-parse-hash''), w))\<rparr>"

definition TestGit :: "(volume, mock_error) Git" where
  "TestGit =
     \<lparr>config = (\<lambda>user mail vol. (Inr (), vol)),
      repo_from_path = (\<lambda>dir vol. (Inr TestGitRepo, vol)),
      clone = (\<lambda>url target_dir vol.
        (Inr TestGitRepo,
         vol_write (posix_join [target_dir, js ''test-sync-paths'', js ''test-file''])
           (js ''test-file from '' @ url)
           (vol_write (posix_join [target_dir, js ''.git'', js ''HEAD'']) (js ''test-HEAD'')
              (vol_write (posix_join [target_dir, js ''.git'', js ''config''])
                 (js ''origin: '' @ url) vol))))\<rparr>"

definition inputs_core :: "jsstring \<Rightarrow> jsstring \<Rightarrow> jsstring \<Rightarrow> jsstring \<Rightarrow> jsstring \<Rightarrow> Core" where
  "inputs_core token paths source dest dry =
     \<lparr>get_input = (\<lambda>name required.
        if name = js ''personal_access_token'' then token
        else if name = js ''sync_paths'' then paths
        else if name = js ''source_repo'' then source
        else if name = js ''destination_repo'' then dest
        else if name = js ''dry_run'' then dry
        else [])\<rparr>"

definition TestCore :: Core where
  "TestCore =
     inputs_core (js ''test-personal-access-token'') (js ''test-sync-paths'')
       (js ''test-owner/test-source-repo'') (js ''test-owner/test-destination-repo'') []"

definition test_services :: "Core \<Rightarrow> (volume, mock_error) services" where
  "test_services c = \<lparr>core = c, git = TestGit, fs = mockFileSystemLayer, path = posix_path\<rparr>"


section \<open>Reading a trace\<close>

text \<open>
  \<open>repository_call\<close>: the event is a call of the \<open>Git\<close> service, of a \<open>GitRepo\<close> or of the
  \<open>FileSystem\<close>; the calls of \<open>Core\<close> and of the tracer are not.
\<close>

fun repository_call :: "event \<Rightarrow> bool" where
  "repository_call (CoreSetSecret s) = False"
| "repository_call (CoreSetOutput name v) = False"
| "repository_call (CoreWarning m) = False"
| "repository_call (CoreInfo m) = False"
| "repository_call (AnnotateCurrentSpan k v) = False"
| "repository_call e = True"

text \<open>The lines that \<open>log_sync_paths\<close> writes, one for each mapping.\<close>

fun sync_path_lines :: "(jsstring \<times> jsstring) list \<Rightarrow> nat \<Rightarrow> jsstring list" where
  "sync_path_lines [] index = []"
| "sync_path_lines ((source, destination) # rest) index =
     (js ''   '' @ digits (index + 1) @ js ''. '' @ source @ js '' -> '' @ destination) #
     sync_path_lines rest (index + 1)"

text \<open>The URL that \<open>clone_repo\<close> builds from the encoded token and a repository.\<close>

definition clone_url :: "jsstring \<Rightarrow> jsstring \<Rightarrow> jsstring" where
  "clone_url encoded repo = js ''https://'' @ encoded @ js ''@github.com/'' @ repo @ js ''.git''"

text \<open>
  The inputs that \<open>parse_inputs\<close> returns when it succeeds (lemma \<open>parse_inputs_eq\<close>).
\<close>

definition action_inputs :: "Core \<Rightarrow> ActionInputs" where
  "action_inputs c =
     \<lparr>personal_access_token = get_input c (js ''personal_access_token'') True,
      sync_paths = parsed_mappings (split (get_input c (js ''sync_paths'') True) 0x0A),
      source_repo = get_input c (js ''source_repo'') True,
      destination_repo = get_input c (js ''destination_repo'') True,
      dry_run = (get_input c (js ''dry_run'') False = js ''true'')\<rparr>"

text \<open>
  What the calls of \<open>program\<close> look like, every argument included: for the \<open>Path\<close>
  service \<open>p\<close>, the directory \<open>temp\<close> that \<open>makeTempDirectory\<close> returned (\<open>None\<close> when it
  failed), the parsed \<open>inputs\<close> and the \<open>warnings\<close> of the parser. Lemma \<open>program_trace\<close>
  shows that every event of a run after the first is of this form.
\<close>

fun program_event ::
  "Path \<Rightarrow> jsstring option \<Rightarrow> ActionInputs \<Rightarrow> jsstring list \<Rightarrow> event \<Rightarrow> bool"
where
  "program_event p temp inputs warnings (GitClone url dir) =
     (case temp of
        None \<Rightarrow> False
      | Some temp_dir \<Rightarrow>
          (case encodeURIComponent (personal_access_token inputs) of
             None \<Rightarrow> False
           | Some encoded \<Rightarrow>
               url = clone_url encoded (destination_repo inputs) \<and>
               dir = join p [temp_dir, js ''destination_repo''] \<or>
               url = clone_url encoded (source_repo inputs) \<and>
               dir = join p [temp_dir, js ''source_repo'']))"
| "program_event p temp inputs warnings (GitConfigure name mail) =
     (name = js ''github-actions[bot]'' \<and>
      mail = js ''github-actions[bot]@users.noreply.github.com'')"
| "program_event p temp inputs warnings (GitRepoFromPath dir) =
     (case temp of
        None \<Rightarrow> False
      | Some temp_dir \<Rightarrow> dir = join p [temp_dir, js ''target''])"
| "program_event p temp inputs warnings (RepoAdd paths) = (paths = [js ''.''])"
| "program_event p temp inputs warnings (RepoCommit message) =
     (message = js ''chore: Sync files from source repository'')"
| "program_event p temp inputs warnings (RepoRevParse ref) = (ref = js ''HEAD'')"
| "program_event p temp inputs warnings (FsMakeDirectory dir) =
     (case temp of
        None \<Rightarrow> False
      | Some temp_dir \<Rightarrow>
          dir = join p [temp_dir, js ''target''] \<or>
          (\<exists>(source, destination)\<in>set (sync_paths inputs).
             dir = dirname p (join p [join p [temp_dir, js ''target''], destination])))"
| "program_event p temp inputs warnings (FsRename old new) =
     (case temp of
        None \<Rightarrow> False
      | Some temp_dir \<Rightarrow>
          old = join p [join p [temp_dir, js ''destination_repo''], js ''.git''] \<and>
          new = join p [join p [temp_dir, js ''target''], js ''.git''] \<or>
          (\<exists>(source, destination)\<in>set (sync_paths inputs).
             old = join p [join p [temp_dir, js ''source_repo''], source] \<and>
             new = join p [join p [temp_dir, js ''target''], destination]))"
| "program_event p temp inputs warnings (FsRemove dir) = False"
| "program_event p temp inputs warnings (AnnotateCurrentSpan key v) =
     (key = js ''personal_access_token'' \<and> v = StringValue (personal_access_token inputs) \<or>
      key = js ''sync_paths'' \<and> v = PathsValue (sync_paths inputs) \<or>
      key = js ''destination_repo'' \<and> v = StringValue (destination_repo inputs) \<or>
      key = js ''dry_run'' \<and> v = BoolValue (dry_run inputs) \<or>
      key = js ''source_repo'' \<and> v = StringValue (source_repo inputs))"
| "program_event p temp inputs warnings (CoreSetSecret s) = False"
| "program_event p temp inputs warnings (CoreSetOutput name v) = (name = js ''commit_hash'')"
| "program_event p temp inputs warnings (CoreWarning m) = (m \<in> set warnings)"
| "program_event p temp inputs warnings (CoreInfo m) =
     (m = starting_mark @ js '' Starting cross-repo sync to '' @ destination_repo inputs @
          (if dry_run inputs then js '' (DRY RUN)'' else []) \<or>
      m = found_mark @ js '' Found '' @ digits (length (sync_paths inputs)) @
          js '' sync path(s):'' \<or>
      m \<in> set (sync_path_lines (sync_paths inputs) 0) \<or>
      m = dry_run_mark @ js '' Running in dry-run mode - no actual changes will be made'' \<or>
      m = js ''No changes detected, skipping commit and push'' \<or>
      startsWith m (js ''Successfully pushed changes with commit hash: '') \<or>
      m = completed_mark @ js '' Cross-repo sync completed successfully'')"
| "program_event p temp inputs warnings e = True"

text \<open>\<open>emits_only P m\<close>: whatever the state, \<open>m\<close> adds only events that satisfy \<open>P\<close>.\<close>

definition emits_only :: "(event \<Rightarrow> bool) \<Rightarrow> ('a, 'w, 'pe) effect \<Rightarrow> bool" where
  "emits_only P m =
     (\<forall>tr w. \<exists>r evs w'. m (tr, w) = (r, (tr @ evs, w')) \<and> list_all P evs)"

text \<open>
  The value of an output after a run, as the workflow reads it: what the last
  \<open>set_output\<close> for the name gave, and the empty string when the name was never set.
\<close>

definition output_value :: "event list \<Rightarrow> jsstring \<Rightarrow> jsstring" where
  "output_value evs name =
     foldl (\<lambda>current e. case e of
                CoreSetOutput n v \<Rightarrow> if n = name then v else current
              | _ \<Rightarrow> current) [] evs"

text \<open>
  The segment lists that \<open>normalize_segments\<close> returns: no empty segment, no \<open>.\<close>, no
  slash inside a segment, and \<open>..\<close> only at the front of a relative path.
\<close>

definition normal_segments :: "bool \<Rightarrow> jsstring list \<Rightarrow> bool" where
  "normal_segments allowAboveRoot segs =
     (list_all (\<lambda>s. s \<noteq> [] \<and> s \<noteq> js ''.'' \<and> 0x2F \<notin> set s) segs \<and>
      js ''..'' \<notin> set (if allowAboveRoot then dropWhile (\<lambda>s. s = js ''..'') segs else segs))"

section \<open>Running effects\<close>

lemma flatMap_apply:
  "flatMap m f s = (case m s of (Inl e, s') \<Rightarrow> (Inl e, s') | (Inr x, s') \<Rightarrow> f x s')"
  by (simp add: flatMap_def)

lemma succeed_apply: "succeed x s = (Inr x, s)"
  by (simp add: succeed_def)

lemma fail_apply: "fail e s = (Inl e, s)"
  by (simp add: fail_def)

lemma emit_apply: "emit ev (tr, w) = (Inr (), (tr @ [ev], w))"
  by (simp add: emit_def)

lemma call_apply:
  "call ev op (tr, w) =
     (case op w of
        (Inl pe, w') \<Rightarrow> (Inl (PlatformError pe), (tr @ [ev], w'))
      | (Inr x, w') \<Rightarrow> (Inr x, (tr @ [ev], w')))"
  by (simp add: call_def)

lemma call_Inr: "op w = (Inr x, w') \<Longrightarrow> call ev op (tr, w) = (Inr x, (tr @ [ev], w'))"
  by (simp add: call_apply)

lemma call_Inl:
  "op w = (Inl pe, w') \<Longrightarrow> call ev op (tr, w) = (Inl (PlatformError pe), (tr @ [ev], w'))"
  by (simp add: call_apply)

section \<open>Strings\<close>

lemma trimStart_Nil_iff: "trimStart s = [] \<longleftrightarrow> list_all is_white_space s"
  by (simp add: trimStart_def dropWhile_eq_Nil_conv list_all_iff)

lemma all_dropWhile_iff: "(\<forall>x\<in>set (dropWhile P s). P x) \<longleftrightarrow> (\<forall>x\<in>set s. P x)"
proof
  assume a: "\<forall>x\<in>set (dropWhile P s). P x"
  have "dropWhile P s = []"
  proof (rule ccontr)
    assume n: "dropWhile P s \<noteq> []"
    then have "\<not> P (hd (dropWhile P s))" by (rule hd_dropWhile)
    moreover have "hd (dropWhile P s) \<in> set (dropWhile P s)" using n by simp
    ultimately show False using a by blast
  qed
  then show "\<forall>x\<in>set s. P x" by (simp add: dropWhile_eq_Nil_conv)
next
  assume "\<forall>x\<in>set s. P x"
  then show "\<forall>x\<in>set (dropWhile P s). P x" by (auto dest: set_dropWhileD)
qed

lemma trim_Nil_iff: "trim s = [] \<longleftrightarrow> (\<forall>c\<in>set s. is_white_space c)"
  by (simp add: trim_def trimEnd_def trimStart_def dropWhile_eq_Nil_conv all_dropWhile_iff)

section \<open>Parsing\<close>

lemma parse_sync_paths_Cons:
  "parse_sync_paths (line # lines) paths (tr, w) =
     (if trim line = [] then parse_sync_paths lines paths (tr, w)
      else if skipped_line line
      then parse_sync_paths lines paths (tr @ [CoreWarning (skip_warning line)], w)
      else parse_sync_paths lines (paths @ [extracted_sides line]) (tr, w))"
  by (simp add: Let_def flatMap_apply emit_apply skipped_line_def unsafe_path_def
      extracted_sides_def skip_warning_def)

declare parse_sync_paths.simps(2) [simp del]

lemma parse_sync_paths_eq:
  "parse_sync_paths lines paths (tr, w) =
     (Inr (paths @ parsed_mappings lines), (tr @ map CoreWarning (skip_warnings lines), w))"
proof (induction lines arbitrary: paths tr)
  case Nil
  show ?case by (simp add: succeed_apply)
next
  case (Cons line lines)
  show ?case
    unfolding parse_sync_paths_Cons
    by (simp add: Cons.IH)
qed

lemma parsed_mappings_Nil_iff:
  "parsed_mappings lines = [] \<longleftrightarrow> (\<forall>line\<in>set lines. trim line = [] \<or> skipped_line line)"
  by (induction lines) auto

lemma parse_inputs_eq:
  \<open>parse_inputs sv (tr, w) =
     (let personal_access_token = get_input (core sv) (js ''personal_access_token'') True;
          sync_paths_input = get_input (core sv) (js ''sync_paths'') True;
          source_repo = get_input (core sv) (js ''source_repo'') True;
          destination_repo = get_input (core sv) (js ''destination_repo'') True;
          dry_run = (get_input (core sv) (js ''dry_run'') False = js ''true'');
          lines = split sync_paths_input 0x0A
      in
      if personal_access_token = [] then
        (Inl (Error (js ''personal_access_token is required'')),
         (tr @ [CoreSetSecret personal_access_token], w))
      else if destination_repo = [] then
        (Inl (Error (js ''destination_repo is required'')),
         (tr @ [CoreSetSecret personal_access_token], w))
      else if source_repo = [] then
        (Inl (Error (js ''source_repo is required'')),
         (tr @ [CoreSetSecret personal_access_token], w))
      else if \<not> valid_repo_format destination_repo then
        (Inl (Error (js ''Invalid repository format: "'' @ destination_repo @
                     js ''". Expected format: "owner/repo"'')),
         (tr @ [CoreSetSecret personal_access_token], w))
      else if trim sync_paths_input = [] then
        (Inl (Error (js ''sync_paths is required'')),
         (tr @ [CoreSetSecret personal_access_token], w))
      else if parsed_mappings lines = [] then
        (Inl (Error (js ''No valid sync paths found'')),
         (tr @ CoreSetSecret personal_access_token # map CoreWarning (skip_warnings lines), w))
      else
        (Inr \<lparr>personal_access_token = personal_access_token,
              sync_paths = parsed_mappings lines,
              source_repo = source_repo,
              destination_repo = destination_repo,
              dry_run = dry_run\<rparr>,
         (tr @ CoreSetSecret personal_access_token # map CoreWarning (skip_warnings lines), w)))\<close>
  by (simp add: parse_inputs_def Let_def flatMap_apply emit_apply fail_apply succeed_apply
      parse_sync_paths_eq)

section \<open>Change detection and commit\<close>

text \<open>
  C1. Once the status of the merged tree has been read: when the status text is empty or
  only white space, \<open>commit_and_push\<close> succeeds with the empty string and calls nothing
  but \<open>status\<close> (no add, commit or push). Otherwise it calls \<open>add(["."])\<close> next,
  whatever happens then; and when add, commit, push and the resolution of \<open>HEAD\<close>
  succeed it has called exactly status, \<open>add(["."])\<close>, commit with the fixed message,
  push and \<open>rev_parse("HEAD")\<close>, in this order, and returns the resolved hash.
\<close>

theorem commit_and_push_status_decides:
  assumes st: "status repo w = (Inr status_text, w1)"
  shows
    "((\<forall>c\<in>set status_text. is_white_space c) \<longrightarrow>
        commit_and_push repo (tr, w) =
          (Inr [], tr @ [RepoStatus,
                         CoreInfo (js ''No changes detected, skipping commit and push'')], w1)) \<and>
     (\<not> (\<forall>c\<in>set status_text. is_white_space c) \<longrightarrow>
        (\<exists>r evs w'. commit_and_push repo (tr, w) =
           (r, tr @ RepoStatus # RepoAdd [js ''.''] # evs, w'))) \<and>
     (\<not> (\<forall>c\<in>set status_text. is_white_space c) \<longrightarrow>
        add repo [js ''.''] w1 = (Inr (), w2) \<longrightarrow>
        commit repo (js ''chore: Sync files from source repository'') w2 = (Inr (), w3) \<longrightarrow>
        push repo w3 = (Inr (), w4) \<longrightarrow>
        rev_parse repo (js ''HEAD'') w4 = (Inr commit_hash, w5) \<longrightarrow>
        commit_and_push repo (tr, w) =
          (Inr commit_hash,
           tr @ [RepoStatus, RepoAdd [js ''.''],
                 RepoCommit (js ''chore: Sync files from source repository''), RepoPush,
                 RepoRevParse (js ''HEAD''),
                 CoreInfo (js ''Successfully pushed changes with commit hash: '' @ commit_hash)],
           w5))"
proof (intro conjI impI)
  assume "\<forall>c\<in>set status_text. is_white_space c"
  then show "commit_and_push repo (tr, w) =
      (Inr [], tr @ [RepoStatus,
                     CoreInfo (js ''No changes detected, skipping commit and push'')], w1)"
    using st
    by (simp add: commit_and_push_def flatMap_apply call_apply emit_apply succeed_apply
        trim_Nil_iff)
next
  assume nb: "\<not> (\<forall>c\<in>set status_text. is_white_space c)"
  show "\<exists>r evs w'. commit_and_push repo (tr, w) =
      (r, tr @ RepoStatus # RepoAdd [js ''.''] # evs, w')"
    using st nb
    by (auto simp: commit_and_push_def flatMap_apply call_apply emit_apply succeed_apply
        trim_Nil_iff Let_def split: prod.splits sum.splits)
next
  assume "\<not> (\<forall>c\<in>set status_text. is_white_space c)"
    and "add repo [js ''.''] w1 = (Inr (), w2)"
    and "commit repo (js ''chore: Sync files from source repository'') w2 = (Inr (), w3)"
    and "push repo w3 = (Inr (), w4)"
    and "rev_parse repo (js ''HEAD'') w4 = (Inr commit_hash, w5)"
  then show "commit_and_push repo (tr, w) =
      (Inr commit_hash,
       tr @ [RepoStatus, RepoAdd [js ''.''],
             RepoCommit (js ''chore: Sync files from source repository''), RepoPush,
             RepoRevParse (js ''HEAD''),
             CoreInfo (js ''Successfully pushed changes with commit hash: '' @ commit_hash)],
       w5)"
    using st
    by (simp add: commit_and_push_def flatMap_apply call_apply emit_apply succeed_apply
        trim_Nil_iff Let_def)
qed

theorem commit_and_push_status_decides_witness:
  "commit_and_push (TestGitRepo\<lparr>status := \<lambda>w. (Inr (js ''  '' @ [0x0A]), w)\<rparr>) ([], ()) =
     (Inr [], [RepoStatus, CoreInfo (js ''No changes detected, skipping commit and push'')], ()) \<and>
   commit_and_push TestGitRepo ([], ()) =
     (Inr (js ''test-rev-parse-hash''),
      [RepoStatus, RepoAdd [js ''.''],
       RepoCommit (js ''chore: Sync files from source repository''), RepoPush,
       RepoRevParse (js ''HEAD''),
       CoreInfo (js ''Successfully pushed changes with commit hash: '' @
                 js ''test-rev-parse-hash'')], ())"
proof -
  have blank: "\<forall>c\<in>set (js ''  '' @ [0x0A]). is_white_space c"
    by (simp add: js_def is_white_space_def is_line_terminator_def)
  have changes:
    "\<not> (\<forall>c\<in>set (js '' - lots'' @ [0x0A] @ js '' - of'' @ [0x0A] @ js '' - changes'').
          is_white_space c)"
    by (simp add: js_def is_white_space_def is_line_terminator_def)
  have a: "status (TestGitRepo\<lparr>status := \<lambda>w. (Inr (js ''  '' @ [0x0A]), w)\<rparr>) () =
      (Inr (js ''  '' @ [0x0A]), ())"
    by simp
  have b: "status TestGitRepo () =
      (Inr (js '' - lots'' @ [0x0A] @ js '' - of'' @ [0x0A] @ js '' - changes''), ())"
    by (simp add: TestGitRepo_def)
  have c: "add TestGitRepo [js ''.''] () = (Inr (), ())"
    "commit TestGitRepo (js ''chore: Sync files from source repository'') () = (Inr (), ())"
    "push TestGitRepo () = (Inr (), ())"
    "rev_parse TestGitRepo (js ''HEAD'') () = (Inr (js ''test-rev-parse-hash''), ())"
    by (simp_all add: TestGitRepo_def)
  note clean = commit_and_push_status_decides [OF a, of "[]" "()" "()" "()" "[]" "()"]
  note dirty =
    commit_and_push_status_decides [OF b, of "[]" "()" "()" "()" "js ''test-rev-parse-hash''" "()"]
  have "commit_and_push (TestGitRepo\<lparr>status := \<lambda>w. (Inr (js ''  '' @ [0x0A]), w)\<rparr>) ([], ()) =
     (Inr [], [] @ [RepoStatus, CoreInfo (js ''No changes detected, skipping commit and push'')],
      ())"
    by (rule clean [THEN conjunct1, THEN mp, OF blank])
  moreover have "commit_and_push TestGitRepo ([], ()) =
     (Inr (js ''test-rev-parse-hash''),
      [] @ [RepoStatus, RepoAdd [js ''.''],
       RepoCommit (js ''chore: Sync files from source repository''), RepoPush,
       RepoRevParse (js ''HEAD''),
       CoreInfo (js ''Successfully pushed changes with commit hash: '' @
                 js ''test-rev-parse-hash'')], ())"
    by (rule dirty [THEN conjunct2, THEN conjunct2, THEN mp, THEN mp, THEN mp, THEN mp, THEN mp,
          OF changes c(1) c(2) c(3) c(4)])
  ultimately show ?thesis by simp
qed

section \<open>Segments and substrings\<close>

lemma startsWith_append: "startsWith (sub @ post) sub"
  by (simp add: startsWith_def)

lemma includes_str_here: "includes_str (sub @ post) sub"
  by (cases "sub @ post") (simp_all add: startsWith_def, metis append_eq_conv_conj)

lemma includes_str_append: "includes_str (pre @ sub @ post) sub"
proof (induction pre)
  case Nil
  show ?case by (simp add: includes_str_here)
next
  case (Cons c pre)
  then show ?case by simp
qed

lemma split_not_Nil: "split s sep \<noteq> []"
  by (cases s) (auto split: list.splits)

lemma split_hd_prefix: "split s sep = x # xs \<Longrightarrow> \<exists>post. s = x @ post"
proof (induction s arbitrary: x xs)
  case Nil
  then show ?case by simp
next
  case (Cons c cs)
  obtain y ys where r: "split cs sep = y # ys"
    using split_not_Nil [of cs sep] by (cases "split cs sep") auto
  from Cons.IH [OF r] obtain post where "cs = y @ post" by blast
  with Cons.prems r show ?case by (auto split: if_splits)
qed

lemma split_member_infix: "seg \<in> set (split s sep) \<Longrightarrow> \<exists>pre post. s = pre @ seg @ post"
proof (induction s arbitrary: seg)
  case Nil
  then show ?case by simp
next
  case (Cons c cs)
  obtain y ys where r: "split cs sep = y # ys"
    using split_not_Nil [of cs sep] by (cases "split cs sep") auto
  from split_hd_prefix [OF r] obtain post where hd: "cs = y @ post" by blast
  show ?case
  proof (cases "seg \<in> set (split cs sep)")
    case True
    from Cons.IH [OF True] obtain pre post' where "cs = pre @ seg @ post'" by blast
    then have "c # cs = (c # pre) @ seg @ post'" by simp
    then show ?thesis by blast
  next
    case False
    with Cons.prems r have "seg = [] \<or> seg = c # y" by (auto split: if_splits)
    then show ?thesis
    proof
      assume "seg = []"
      then have "c # cs = [] @ seg @ (c # cs)" by simp
      then show ?thesis by blast
    next
      assume "seg = c # y"
      with hd have "c # cs = [] @ seg @ post" by simp
      then show ?thesis by blast
    qed
  qed
qed

lemma traversal_segment_includes:
  "js ''..'' \<in> set (split p 0x2F) \<Longrightarrow> includes_str p (js ''..'')"
  using split_member_infix includes_str_append by metis

lemma parsed_mappings_safe:
  "p \<in> set (parsed_mappings lines) \<Longrightarrow> \<not> unsafe_path (fst p) \<and> \<not> unsafe_path (snd p)"
  by (induction lines) (auto simp: skipped_line_def split: if_splits)

lemma colon_not_white_space: "\<not> is_white_space 0x3A"
  by (simp add: is_white_space_def is_line_terminator_def)

lemma trimStart_append_colon: "trimStart (A @ 0x3A # B) = trimStart A @ 0x3A # B"
  by (simp add: trimStart_def dropWhile_append3 colon_not_white_space)

lemma trimEnd_append_colon: "trimEnd (A @ 0x3A # B) = A @ 0x3A # trimEnd B"
  by (simp add: trimEnd_def dropWhile_append3 colon_not_white_space)

lemma trim_append_colon: "trim (A @ 0x3A # B) = trimStart A @ 0x3A # trimEnd B"
  by (simp add: trim_def trimStart_append_colon trimEnd_append_colon)

lemma trimStart_idem: "trimStart (trimStart s) = trimStart s"
  by (simp add: trimStart_def)

lemma trimEnd_idem: "trimEnd (trimEnd s) = trimEnd s"
  by (simp add: trimEnd_def)

lemma trimStart_trimEnd: "trimStart (trimEnd s) = trimEnd (trimStart s)"
proof (cases "dropWhile is_white_space s")
  case Nil
  then have all: "\<forall>c\<in>set s. is_white_space c" by (simp add: dropWhile_eq_Nil_conv)
  have a: "dropWhile is_white_space s = []" and b: "dropWhile is_white_space (rev s) = []"
    using all by simp_all
  show ?thesis unfolding trimStart_def trimEnd_def a b by simp
next
  case (Cons y ys)
  then have ny: "\<not> is_white_space y"
    using hd_dropWhile [of is_white_space s] by simp
  have s: "s = takeWhile is_white_space s @ y # ys"
    using Cons takeWhile_dropWhile_id [of is_white_space s] by simp
  have e: "trimEnd s = takeWhile is_white_space s @ y # trimEnd ys"
  proof -
    have "trimEnd s = trimEnd (takeWhile is_white_space s @ y # ys)" using s by simp
    also have "\<dots> = takeWhile is_white_space s @ y # trimEnd ys"
      by (simp add: trimEnd_def dropWhile_append3 ny)
    finally show ?thesis .
  qed
  have "trimStart (trimEnd s) = y # trimEnd ys"
    unfolding e trimStart_def
    by (subst dropWhile_append2) (auto dest: set_takeWhileD simp: ny)
  moreover have "trimEnd (trimStart s) = y # trimEnd ys"
    using Cons ny by (simp add: trimStart_def trimEnd_def dropWhile_append3)
  ultimately show ?thesis by simp
qed

lemma trim_trimStart: "trim (trimStart s) = trim s"
  by (simp add: trim_def trimStart_idem)

lemma trim_trimEnd: "trim (trimEnd s) = trim s"
  by (simp add: trim_def trimStart_trimEnd trimEnd_idem)

lemma indexOf_first:
  "c \<notin> set xs \<Longrightarrow> indexOf (xs @ c # ys) c = int (length xs)"
  by (subst indexOf_def, subst takeWhile_append2) auto

lemma slice_take: "n \<le> length s \<Longrightarrow> slice s 0 (int n) = take n s"
  by (simp add: slice_def slice_index_def)

lemma slice_from_drop: "slice_from s (int n) = drop n s"
  by (cases "n \<le> length s") (simp_all add: slice_from_def slice_index_def)

lemma extracted_sides_colon:
  assumes "0x3A \<notin> set A"
  shows "extracted_sides (A @ 0x3A # B) = (unquote (trim A), unquote (trim B))"
proof -
  have n: "0x3A \<notin> set (trimStart A)"
    using assms by (auto simp: trimStart_def dest: set_dropWhileD)
  have i: "indexOf (trimStart A @ 0x3A # trimEnd B) 0x3A = int (length (trimStart A))"
    using n by (rule indexOf_first)
  have i1: "int (length (trimStart A)) + 1 = int (Suc (length (trimStart A)))" by simp
  show ?thesis
    unfolding extracted_sides_def trim_append_colon Let_def i i1 slice_from_drop
    by (simp add: slice_take trim_trimStart trim_trimEnd)
qed

lemma unquote_unchanged:
  "\<not> (2 \<le> length s \<and> hd s = 0x22 \<and> last s = 0x22) \<Longrightarrow> unquote s = s"
  by (auto simp: unquote_def)

text \<open>The definitions that evaluate a string expression on a literal.\<close>

lemmas string_eval =
  trim_def trimStart_def trimEnd_def is_white_space_def is_line_terminator_def indexOf_def
  slice_def slice_from_def slice_index_def unquote_def startsWith_def js_def Let_def

section \<open>The path-mapping parser\<close>

text \<open>
  C5, as the claim states it, fails. The claim takes a line \<open>A:B\<close> without surrounding
  quotes whose sides hold no parent-directory segment and do not start at the root, and
  says that the parser yields \<open>(A, B)\<close>. The line \<open>a..b:c\<close> is such a line (the segments
  of \<open>a..b\<close> are \<open>a..b\<close> alone), and the parser skips it with a warning: its test is
  \<open>includes("..")\<close>, two dots anywhere in the side.
\<close>

theorem separator_line_with_inner_dots_counterexample:
  "0x3A \<notin> set (js ''a..b'') \<and>
   trim (js ''a..b'') = js ''a..b'' \<and> trim (js ''c'') = js ''c'' \<and>
   hd (js ''a..b'') \<noteq> 0x22 \<and> hd (js ''c'') \<noteq> 0x22 \<and>
   js ''..'' \<notin> set (split (js ''a..b'') 0x2F) \<and> js ''..'' \<notin> set (split (js ''c'') 0x2F) \<and>
   \<not> startsWith (js ''a..b'') (js ''/'') \<and> \<not> startsWith (js ''c'') (js ''/'') \<and>
   parse_sync_paths [js ''a..b'' @ 0x3A # js ''c''] [] ([], ()) =
     (Inr [], ([CoreWarning (js ''Potentially unsafe path detected and skipped: a..b -> c'')], ()))"
  by (simp only: parse_sync_paths_eq)
     (simp add: skipped_line_def extracted_sides_def unsafe_path_def skip_warning_def string_eval)

text \<open>
  C5, amended. For every line \<open>A:B\<close> where \<open>A\<close> has no colon (so the colon after \<open>A\<close> is
  the first of the line), neither trimmed side is wrapped in double quotes, neither
  trimmed side has two consecutive dots anywhere, and neither starts with a slash, the
  loop appends exactly the pair of the trimmed sides and goes on with the remaining lines,
  logging nothing.
\<close>

theorem parser_splits_at_first_separator:
  assumes colon: "0x3A \<notin> set A"
    and quotes: "\<not> (2 \<le> length (trim A) \<and> hd (trim A) = 0x22 \<and> last (trim A) = 0x22)"
      "\<not> (2 \<le> length (trim B) \<and> hd (trim B) = 0x22 \<and> last (trim B) = 0x22)"
    and dots: "\<not> includes_str (trim A) (js ''..'')" "\<not> includes_str (trim B) (js ''..'')"
    and root: "\<not> startsWith (trim A) (js ''/'')" "\<not> startsWith (trim B) (js ''/'')"
  shows "parse_sync_paths ((A @ 0x3A # B) # lines) paths (tr, w) =
           parse_sync_paths lines (paths @ [(trim A, trim B)]) (tr, w)"
proof -
  have sides: "extracted_sides (A @ 0x3A # B) = (trim A, trim B)"
    using extracted_sides_colon [OF colon] quotes by (simp add: unquote_unchanged)
  have nb: "trim (A @ 0x3A # B) \<noteq> []" by (simp add: trim_append_colon)
  have "\<not> skipped_line (A @ 0x3A # B)"
    using dots root by (simp add: skipped_line_def sides unsafe_path_def)
  then show ?thesis
    unfolding parse_sync_paths_Cons using nb sides by simp
qed

theorem parser_splits_at_first_separator_witness:
  "parse_sync_paths [js '' docs '' @ 0x3A # js '' content/api  ''] [] ([], ()) =
     (Inr [(js ''docs'', js ''content/api'')], ([], ()))"
  using parser_splits_at_first_separator
    [of "js '' docs ''" "js '' content/api  ''" "[]" "[]" "[]" "()"]
  by (simp add: string_eval succeed_apply)

text \<open>
  C4. A non-blank line one of whose extracted sides has a \<open>..\<close> segment or starts with a
  slash adds nothing to the mappings: the loop logs one warning and goes on with the
  remaining lines. The loop always ends with a result, and no pair of that result has a
  side with a \<open>..\<close> segment or a leading slash.
\<close>

theorem unsafe_sides_never_parsed:
  "(trim line \<noteq> [] \<and>
    (js ''..'' \<in> set (split (fst (extracted_sides line)) 0x2F) \<or>
     startsWith (fst (extracted_sides line)) (js ''/'') \<or>
     js ''..'' \<in> set (split (snd (extracted_sides line)) 0x2F) \<or>
     startsWith (snd (extracted_sides line)) (js ''/'')) \<longrightarrow>
      parse_sync_paths (line # lines) paths (tr, w) =
        parse_sync_paths lines paths (tr @ [CoreWarning (skip_warning line)], w)) \<and>
   (\<exists>warnings. parse_sync_paths lines [] (tr, w) =
      (Inr (parsed_mappings lines), (tr @ map CoreWarning warnings, w))) \<and>
   (\<forall>(source, destination)\<in>set (parsed_mappings lines).
      js ''..'' \<notin> set (split source 0x2F) \<and> \<not> startsWith source (js ''/'') \<and>
      js ''..'' \<notin> set (split destination 0x2F) \<and> \<not> startsWith destination (js ''/''))"
proof (intro conjI impI)
  assume a: "trim line \<noteq> [] \<and>
    (js ''..'' \<in> set (split (fst (extracted_sides line)) 0x2F) \<or>
     startsWith (fst (extracted_sides line)) (js ''/'') \<or>
     js ''..'' \<in> set (split (snd (extracted_sides line)) 0x2F) \<or>
     startsWith (snd (extracted_sides line)) (js ''/''))"
  then have "skipped_line line"
    by (auto simp: skipped_line_def unsafe_path_def dest: traversal_segment_includes)
  with a show "parse_sync_paths (line # lines) paths (tr, w) =
      parse_sync_paths lines paths (tr @ [CoreWarning (skip_warning line)], w)"
    unfolding parse_sync_paths_Cons by simp
next
  show "\<exists>warnings. parse_sync_paths lines [] (tr, w) =
      (Inr (parsed_mappings lines), (tr @ map CoreWarning warnings, w))"
    by (simp only: parse_sync_paths_eq) auto
next
  show "\<forall>(source, destination)\<in>set (parsed_mappings lines).
      js ''..'' \<notin> set (split source 0x2F) \<and> \<not> startsWith source (js ''/'') \<and>
      js ''..'' \<notin> set (split destination 0x2F) \<and> \<not> startsWith destination (js ''/'')"
  proof (clarify, intro conjI)
    fix source destination
    assume "(source, destination) \<in> set (parsed_mappings lines)"
    from parsed_mappings_safe [OF this]
    have s: "\<not> unsafe_path source" and d: "\<not> unsafe_path destination" by simp_all
    show "js ''..'' \<notin> set (split source 0x2F)"
      using s traversal_segment_includes by (auto simp: unsafe_path_def)
    show "\<not> startsWith source (js ''/'')" using s by (simp add: unsafe_path_def)
    show "js ''..'' \<notin> set (split destination 0x2F)"
      using d traversal_segment_includes by (auto simp: unsafe_path_def)
    show "\<not> startsWith destination (js ''/'')" using d by (simp add: unsafe_path_def)
  qed
qed

theorem unsafe_sides_never_parsed_witness:
  "parse_sync_paths [js ''../etc/passwd:stolen'', js ''docs:content''] [] ([], ()) =
     (Inr [(js ''docs'', js ''content'')],
      ([CoreWarning (js ''Potentially unsafe path detected and skipped: ../etc/passwd -> stolen'')],
       ())) \<and>
   parsed_mappings [js ''../etc/passwd:stolen'', js ''docs:content''] =
     [(js ''docs'', js ''content'')]"
proof -
  have e: "extracted_sides (js ''../etc/passwd:stolen'') = (js ''../etc/passwd'', js ''stolen'')"
    by (simp add: extracted_sides_def string_eval)
  have t: "trim (js ''../etc/passwd:stolen'') \<noteq> []"
    by (simp add: string_eval)
  have s: "js ''..'' \<in> set (split (js ''../etc/passwd'') 0x2F)"
    by (simp add: js_def)
  have w: "skip_warning (js ''../etc/passwd:stolen'') =
      js ''Potentially unsafe path detected and skipped: ../etc/passwd -> stolen''"
    by (simp add: skip_warning_def e) (simp add: string_eval)
  note u = unsafe_sides_never_parsed
    [of "js ''../etc/passwd:stolen''" "[js ''docs:content'']" "[]" "[]" "()"]
  have first: "parse_sync_paths [js ''../etc/passwd:stolen'', js ''docs:content''] [] ([], ()) =
      parse_sync_paths [js ''docs:content''] []
        ([] @ [CoreWarning (skip_warning (js ''../etc/passwd:stolen''))], ())"
    by (rule u [THEN conjunct1, THEN mp]) (simp add: t e s)
  have rest: "parsed_mappings [js ''docs:content''] = [(js ''docs'', js ''content'')]"
    by (simp add: skipped_line_def extracted_sides_def unsafe_path_def string_eval)
  have "parsed_mappings [js ''../etc/passwd:stolen'', js ''docs:content''] =
      [(js ''docs'', js ''content'')]"
    using rest by (simp add: skipped_line_def e unsafe_path_def) (simp add: string_eval)
  moreover have "parse_sync_paths [js ''docs:content''] []
      ([CoreWarning (skip_warning (js ''../etc/passwd:stolen''))], ()) =
      (Inr [(js ''docs'', js ''content'')],
       ([CoreWarning (skip_warning (js ''../etc/passwd:stolen''))], ()))"
    by (simp only: parse_sync_paths_eq rest)
       (simp add: skipped_line_def extracted_sides_def unsafe_path_def string_eval)
  ultimately show ?thesis unfolding first w by simp
qed

section \<open>Events of a run\<close>

lemma flatMap_Inr: "m s = (Inr x, s') \<Longrightarrow> flatMap m f s = f x s'"
  by (simp add: flatMap_apply)

lemma emits_only_succeed: "emits_only P (succeed x)"
  by (simp add: emits_only_def succeed_apply)

lemma emits_only_fail: "emits_only P (fail e)"
  by (simp add: emits_only_def fail_apply)

lemma emits_only_emit: "P ev \<Longrightarrow> emits_only P (emit ev)"
  by (simp add: emits_only_def emit_apply)

lemma emits_only_call: "P ev \<Longrightarrow> emits_only P (call ev op)"
  by (auto simp: emits_only_def call_apply split: prod.splits sum.splits)

lemma emits_only_flatMap:
  assumes m: "emits_only P m" and f: "\<And>x. emits_only P (f x)"
  shows "emits_only P (flatMap m f)"
  unfolding emits_only_def
proof (intro allI)
  fix tr w
  from m obtain r1 evs1 w1 where 1: "m (tr, w) = (r1, (tr @ evs1, w1))" and p1: "list_all P evs1"
    unfolding emits_only_def by blast
  show "\<exists>r evs w'. flatMap m f (tr, w) = (r, (tr @ evs, w')) \<and> list_all P evs"
  proof (cases r1)
    case (Inl e)
    with 1 p1 show ?thesis by (auto simp: flatMap_apply)
  next
    case (Inr x)
    from f [of x] obtain r2 evs2 w2 where
      2: "f x (tr @ evs1, w1) = (r2, ((tr @ evs1) @ evs2, w2))" and p2: "list_all P evs2"
      unfolding emits_only_def by blast
    have "flatMap m f (tr, w) = (r2, (tr @ (evs1 @ evs2), w2))"
      using 1 2 Inr by (simp add: flatMap_apply)
    moreover have "list_all P (evs1 @ evs2)" using p1 p2 by simp
    ultimately show ?thesis by blast
  qed
qed

lemma emits_only_if:
  "emits_only P a \<Longrightarrow> emits_only P b \<Longrightarrow> emits_only P (if c then a else b)"
  by simp

lemma emits_only_after:
  assumes m: "emits_only P m" and pre: "list_all P pre"
  shows "\<exists>r evs w'. m (tr @ e0 # pre, w) = (r, (tr @ e0 # evs, w')) \<and> list_all P evs"
proof -
  from m obtain r evs w' where
    1: "m (tr @ e0 # pre, w) = (r, ((tr @ e0 # pre) @ evs, w'))" and 2: "list_all P evs"
    unfolding emits_only_def by blast
  have "m (tr @ e0 # pre, w) = (r, (tr @ e0 # (pre @ evs), w'))" using 1 by simp
  moreover have "list_all P (pre @ evs)" using pre 2 by simp
  ultimately show ?thesis by blast
qed

lemma emits_only_after_call:
  assumes op: "op w = (Inr x, w1)" and m: "emits_only P (f x)"
    and pre: "list_all P pre" and ev: "P ev"
  shows "\<exists>r evs w'.
           flatMap (call ev op) f (tr @ e0 # pre, w) = (r, (tr @ e0 # evs, w')) \<and> list_all P evs"
proof -
  have "flatMap (call ev op) f (tr @ e0 # pre, w) = f x (tr @ e0 # (pre @ [ev]), w1)"
    by (simp add: flatMap_apply call_apply op)
  moreover have "list_all P (pre @ [ev])" using pre ev by simp
  ultimately show ?thesis using emits_only_after [OF m, of "pre @ [ev]" tr e0 w1] by simp
qed

lemma emits_only_after_call_Inl:
  assumes op: "op w = (Inl pe, w1)" and pre: "list_all P pre" and ev: "P ev"
  shows "\<exists>r evs w'.
           flatMap (call ev op) f (tr @ e0 # pre, w) = (r, (tr @ e0 # evs, w')) \<and> list_all P evs"
proof -
  have "flatMap (call ev op) f (tr @ e0 # pre, w) =
      (Inl (PlatformError pe), (tr @ e0 # (pre @ [ev]), w1))"
    by (simp add: flatMap_apply call_apply op)
  moreover have "list_all P (pre @ [ev])" using pre ev by simp
  ultimately show ?thesis by blast
qed

lemma if_apply_True: "c \<Longrightarrow> (if c then a else b) s = a s"
  by simp

lemma if_apply_False: "\<not> c \<Longrightarrow> (if c then a else b) s = b s"
  by simp

lemma emits_only_move_each:
  assumes "\<And>source destination. (source, destination) \<in> set ps \<Longrightarrow>
             P (FsMakeDirectory (dirname (path sv) (join (path sv) [D, destination])))"
    and "\<And>source destination. (source, destination) \<in> set ps \<Longrightarrow>
             P (FsRename (join (path sv) [S, source]) (join (path sv) [D, destination]))"
  shows "emits_only P (move_each sv ps S D)"
  using assms
proof (induction sv ps S D rule: move_each.induct)
  case (1 sv S D)
  show ?case by (simp add: emits_only_succeed)
next
  case (2 sv source destination rest S D)
  have rest: "emits_only P (move_each sv rest S D)"
  proof (rule 2(1) [OF refl refl refl])
    show "P (FsMakeDirectory (dirname (path sv) (join (path sv) [D, d])))"
      if "(s, d) \<in> set rest" for s d
      using 2(2) [of s d] that by simp
    show "P (FsRename (join (path sv) [S, s]) (join (path sv) [D, d]))"
      if "(s, d) \<in> set rest" for s d
      using 2(3) [of s d] that by simp
  qed
  have head: "P (FsMakeDirectory (dirname (path sv) (join (path sv) [D, destination])))"
    "P (FsRename (join (path sv) [S, source]) (join (path sv) [D, destination]))"
    using 2(2) [of source destination] 2(3) [of source destination] by simp_all
  show ?case
    unfolding move_each.simps Let_def
    by (intro emits_only_flatMap emits_only_call rest head)
qed

lemma emits_only_commit_and_push:
  assumes "P RepoStatus" and "P (CoreInfo (js ''No changes detected, skipping commit and push''))"
    and "P (RepoAdd [js ''.''])"
    and "P (RepoCommit (js ''chore: Sync files from source repository''))"
    and "P RepoPush" and "P (RepoRevParse (js ''HEAD''))"
    and "\<And>commit_hash.
           P (CoreInfo (js ''Successfully pushed changes with commit hash: '' @ commit_hash))"
  shows "emits_only P (commit_and_push repo)"
  unfolding commit_and_push_def Let_def
  by (intro emits_only_flatMap emits_only_if emits_only_call emits_only_emit emits_only_succeed
      assms)

lemma emits_only_clone_repo:
  assumes "\<And>encoded. encodeURIComponent token = Some encoded \<Longrightarrow>
             P (GitClone (clone_url encoded repo) dir)"
  shows "emits_only P (clone_repo sv token repo dir)"
proof (cases "encodeURIComponent token")
  case None
  then show ?thesis by (simp add: clone_repo_def emits_only_fail)
next
  case (Some encoded)
  from assms [OF Some] show ?thesis
    unfolding clone_repo_def Let_def Some by (simp add: emits_only_call clone_url_def)
qed

lemma parse_inputs_trace:
  "\<exists>r warnings.
     parse_inputs sv (tr, w) =
       (r, (tr @ CoreSetSecret (get_input (core sv) (js ''personal_access_token'') True) #
              map CoreWarning warnings, w)) \<and>
     (\<forall>inputs. r = Inr inputs \<longrightarrow>
        personal_access_token inputs = get_input (core sv) (js ''personal_access_token'') True \<and>
        destination_repo inputs = get_input (core sv) (js ''destination_repo'') True \<and>
        source_repo inputs = get_input (core sv) (js ''source_repo'') True \<and>
        dry_run inputs = (get_input (core sv) (js ''dry_run'') False = js ''true'') \<and>
        sync_paths inputs = parsed_mappings (split (get_input (core sv) (js ''sync_paths'') True) 0x0A))"
proof -
  have nil: "\<And>tr. tr @ [CoreSetSecret (get_input (core sv) (js ''personal_access_token'') True)] =
      tr @ CoreSetSecret (get_input (core sv) (js ''personal_access_token'') True) #
        map CoreWarning []"
    by simp
  show ?thesis
    unfolding parse_inputs_eq Let_def
    by (auto intro: nil)
qed

lemma parse_inputs_result:
  "(\<exists>e warnings.
      parse_inputs sv (tr, w) =
        (Inl e, (tr @ CoreSetSecret (get_input (core sv) (js ''personal_access_token'') True) #
                   map CoreWarning warnings, w)) \<and>
      set warnings \<subseteq>
        set (skip_warnings (split (get_input (core sv) (js ''sync_paths'') True) 0x0A))) \<or>
   parse_inputs sv (tr, w) =
     (Inr (action_inputs (core sv)),
      (tr @ CoreSetSecret (get_input (core sv) (js ''personal_access_token'') True) #
         map CoreWarning (skip_warnings (split (get_input (core sv) (js ''sync_paths'') True) 0x0A)),
       w))"
proof -
  have nil: "\<And>x. [x] = x # map CoreWarning []" by simp
  have early: "\<And>e. \<exists>warnings.
      (Inl e, (tr @ [CoreSetSecret (get_input (core sv) (js ''personal_access_token'') True)], w)) =
        (Inl e, (tr @ CoreSetSecret (get_input (core sv) (js ''personal_access_token'') True) #
                   map CoreWarning warnings, w)) \<and>
      set warnings \<subseteq>
        set (skip_warnings (split (get_input (core sv) (js ''sync_paths'') True) 0x0A))"
    by (rule exI [of _ "[]"]) simp
  show ?thesis
    unfolding parse_inputs_eq Let_def action_inputs_def
    using early by auto
qed

section \<open>Validation\<close>

text \<open>
  C3. When every line of \<open>sync_paths\<close> is blank or skipped as unsafe, \<open>parse_inputs\<close>
  fails with an \<open>Error\<close> of the program's own (a validation error), the run fails with
  the same error, the world is as it was, and no call of the \<open>Git\<close> service, of a
  repository or of the file system has been made: no clone, no commit, no push.
\<close>

theorem no_valid_mapping_is_a_validation_error:
  assumes none: "\<forall>line\<in>set (split (get_input (core sv) (js ''sync_paths'') True) 0x0A).
                   trim line = [] \<or> skipped_line line"
  shows "\<exists>message evs.
           parse_inputs sv (tr, w) = (Inl (Error message), (tr @ evs, w)) \<and>
           program sv (tr, w) = (Inl (Error message), (tr @ evs, w)) \<and>
           (\<forall>e\<in>set evs. \<not> repository_call e)"
proof -
  have nil: "parsed_mappings (split (get_input (core sv) (js ''sync_paths'') True) 0x0A) = []"
    using none by (simp add: parsed_mappings_Nil_iff)
  have "\<exists>message evs.
           parse_inputs sv (tr, w) = (Inl (Error message), (tr @ evs, w)) \<and>
           (\<forall>e\<in>set evs. \<not> repository_call e)"
    unfolding parse_inputs_eq Let_def nil by auto
  then obtain message evs where
    p: "parse_inputs sv (tr, w) = (Inl (Error message), (tr @ evs, w))"
    and e: "\<forall>e\<in>set evs. \<not> repository_call e"
    by blast
  have "program sv (tr, w) = (Inl (Error message), (tr @ evs, w))"
    by (simp add: program_def flatMap_apply p)
  with p e show ?thesis by blast
qed

section \<open>Evaluating \<open>parse_inputs\<close>\<close>

lemma get_input_inputs_core:
  "get_input (core (test_services (inputs_core t p s d r))) (js ''personal_access_token'') b = t"
  "get_input (core (test_services (inputs_core t p s d r))) (js ''sync_paths'') b = p"
  "get_input (core (test_services (inputs_core t p s d r))) (js ''source_repo'') b = s"
  "get_input (core (test_services (inputs_core t p s d r))) (js ''destination_repo'') b = d"
  "get_input (core (test_services (inputs_core t p s d r))) (js ''dry_run'') b = r"
  by (simp_all add: test_services_def inputs_core_def js_def)

lemma valid_test_dst: "valid_repo_format (js ''test-owner/test-destination-repo'')"
  by (simp add: valid_repo_format_def is_repo_char_def js_def)

lemma parse_inputs_no_mappings:
  assumes "get_input (core sv) (js ''personal_access_token'') True \<noteq> []"
    and "get_input (core sv) (js ''destination_repo'') True \<noteq> []"
    and "get_input (core sv) (js ''source_repo'') True \<noteq> []"
    and "valid_repo_format (get_input (core sv) (js ''destination_repo'') True)"
    and "trim (get_input (core sv) (js ''sync_paths'') True) \<noteq> []"
    and "parsed_mappings (split (get_input (core sv) (js ''sync_paths'') True) 0x0A) = []"
  shows "parse_inputs sv (tr, w) =
     (Inl (Error (js ''No valid sync paths found'')),
      (tr @ CoreSetSecret (get_input (core sv) (js ''personal_access_token'') True) #
         map CoreWarning (skip_warnings (split (get_input (core sv) (js ''sync_paths'') True) 0x0A)),
       w))"
  unfolding parse_inputs_eq Let_def using assms by simp

lemma parse_inputs_success:
  assumes "get_input (core sv) (js ''personal_access_token'') True \<noteq> []"
    and "get_input (core sv) (js ''destination_repo'') True \<noteq> []"
    and "get_input (core sv) (js ''source_repo'') True \<noteq> []"
    and "valid_repo_format (get_input (core sv) (js ''destination_repo'') True)"
    and "trim (get_input (core sv) (js ''sync_paths'') True) \<noteq> []"
    and "parsed_mappings (split (get_input (core sv) (js ''sync_paths'') True) 0x0A) \<noteq> []"
  shows "parse_inputs sv (tr, w) =
     (Inr \<lparr>personal_access_token = get_input (core sv) (js ''personal_access_token'') True,
           sync_paths = parsed_mappings (split (get_input (core sv) (js ''sync_paths'') True) 0x0A),
           source_repo = get_input (core sv) (js ''source_repo'') True,
           destination_repo = get_input (core sv) (js ''destination_repo'') True,
           dry_run = (get_input (core sv) (js ''dry_run'') False = js ''true'')\<rparr>,
      (tr @ CoreSetSecret (get_input (core sv) (js ''personal_access_token'') True) #
         map CoreWarning (skip_warnings (split (get_input (core sv) (js ''sync_paths'') True) 0x0A)),
       w))"
  unfolding parse_inputs_eq Let_def using assms by simp

theorem no_valid_mapping_is_a_validation_error_witness:
  "program
     (test_services
        (inputs_core (js ''test-personal-access-token'') (js ''../etc/passwd:stolen'')
           (js ''test-owner/test-source-repo'') (js ''test-owner/test-destination-repo'') []))
     ([], []) =
   (Inl (Error (js ''No valid sync paths found'')),
    ([CoreSetSecret (js ''test-personal-access-token''),
      CoreWarning (js ''Potentially unsafe path detected and skipped: ../etc/passwd -> stolen'')],
     []))"
proof -
  let ?sv = "test_services
        (inputs_core (js ''test-personal-access-token'') (js ''../etc/passwd:stolen'')
           (js ''test-owner/test-source-repo'') (js ''test-owner/test-destination-repo'') [])"
  have e: "extracted_sides (js ''../etc/passwd:stolen'') = (js ''../etc/passwd'', js ''stolen'')"
    by (simp add: extracted_sides_def string_eval)
  have sk: "skipped_line (js ''../etc/passwd:stolen'')"
    by (simp add: skipped_line_def e unsafe_path_def) (simp add: string_eval)
  have l: "split (js ''../etc/passwd:stolen'') 0x0A = [js ''../etc/passwd:stolen'']"
    by (simp add: js_def)
  have none: "\<forall>line\<in>set (split (get_input (core ?sv) (js ''sync_paths'') True) 0x0A).
                   trim line = [] \<or> skipped_line line"
    unfolding get_input_inputs_core l using sk by simp
  have w: "skip_warning (js ''../etc/passwd:stolen'') =
      js ''Potentially unsafe path detected and skipped: ../etc/passwd -> stolen''"
    by (simp add: skip_warning_def e) (simp add: string_eval)
  have t: "trim (js ''../etc/passwd:stolen'') \<noteq> []"
    by (simp add: string_eval)
  have n: "js ''test-personal-access-token'' \<noteq> []" "js ''test-owner/test-source-repo'' \<noteq> []"
    "js ''test-owner/test-destination-repo'' \<noteq> []"
    by (simp_all add: js_def)
  have p: "parse_inputs ?sv ([], []) =
     (Inl (Error (js ''No valid sync paths found'')),
      ([CoreSetSecret (js ''test-personal-access-token''),
        CoreWarning (js ''Potentially unsafe path detected and skipped: ../etc/passwd -> stolen'')],
       []))"
    by (subst parse_inputs_no_mappings)
       (simp_all only: get_input_inputs_core n valid_test_dst t l parsed_mappings.simps
          skip_warnings.simps sk w simp_thms if_True if_False list.map append_Nil not_False_eq_True)
  from no_valid_mapping_is_a_validation_error [OF none, of "[]" "[]"]
  obtain message evs where
    "parse_inputs ?sv ([], []) = (Inl (Error message), ([] @ evs, []))"
    "program ?sv ([], []) = (Inl (Error message), ([] @ evs, []))"
    by blast
  with p show ?thesis by simp
qed

section \<open>Straight-line parts of a run\<close>

lemma log_sync_paths_eq:
  "log_sync_paths ps i (tr, w) = (Inr (), (tr @ map CoreInfo (sync_path_lines ps i), w))"
  by (induction ps i arbitrary: tr rule: log_sync_paths.induct)
     (simp_all add: succeed_apply flatMap_apply emit_apply)

lemma annotate_inputs_eq:
  "annotate_inputs inputs (tr, w) =
     (Inr (),
      (tr @ [AnnotateCurrentSpan (js ''personal_access_token'')
               (StringValue (personal_access_token inputs)),
             AnnotateCurrentSpan (js ''sync_paths'') (PathsValue (sync_paths inputs)),
             AnnotateCurrentSpan (js ''destination_repo'') (StringValue (destination_repo inputs)),
             AnnotateCurrentSpan (js ''dry_run'') (BoolValue (dry_run inputs)),
             AnnotateCurrentSpan (js ''source_repo'') (StringValue (source_repo inputs))], w))"
  by (simp add: annotate_inputs_def flatMap_apply emit_apply)

lemma program_dry_run:
  assumes p: "parse_inputs sv (tr, w) = (Inr inputs, (tr1, w1))" and dry: "dry_run inputs"
  shows "program sv (tr, w) =
     (Inr (),
      (tr1 @
       [AnnotateCurrentSpan (js ''personal_access_token'')
          (StringValue (personal_access_token inputs)),
        AnnotateCurrentSpan (js ''sync_paths'') (PathsValue (sync_paths inputs)),
        AnnotateCurrentSpan (js ''destination_repo'') (StringValue (destination_repo inputs)),
        AnnotateCurrentSpan (js ''dry_run'') (BoolValue (dry_run inputs)),
        AnnotateCurrentSpan (js ''source_repo'') (StringValue (source_repo inputs)),
        CoreInfo (starting_mark @ js '' Starting cross-repo sync to '' @ destination_repo inputs @
                  js '' (DRY RUN)''),
        CoreInfo (found_mark @ js '' Found '' @ digits (length (sync_paths inputs)) @
                  js '' sync path(s):'')] @
       map CoreInfo (sync_path_lines (sync_paths inputs) 0) @
       [CoreInfo (dry_run_mark @ js '' Running in dry-run mode - no actual changes will be made'')],
       w1))"
  using dry
  by (simp add: program_def flatMap_apply p annotate_inputs_eq emit_apply log_sync_paths_eq
      succeed_apply)

lemma output_value_unset_aux:
  "list_all (\<lambda>e. \<not> repository_call e \<and> (\<forall>n v. e \<noteq> CoreSetOutput n v)) evs \<Longrightarrow>
     foldl (\<lambda>current e. case e of
                CoreSetOutput n v \<Rightarrow> if n = name then v else current
              | _ \<Rightarrow> current) cur evs = cur"
proof (induction evs arbitrary: cur)
  case Nil
  show ?case by simp
next
  case (Cons e evs)
  then show ?case by (cases e) simp_all
qed

lemma output_value_unset:
  "list_all (\<lambda>e. \<not> repository_call e \<and> (\<forall>n v. e \<noteq> CoreSetOutput n v)) evs \<Longrightarrow>
     output_value evs name = []"
  unfolding output_value_def by (rule output_value_unset_aux)

section \<open>The run of the test\<close>

text \<open>
  The test \<open>should run\<close> of the repository, step by step: the services of the test, the
  paths it joins, the volume after each clone and rename, and the whole run.
\<close>

lemma test_services_simps:
  "core (test_services c) = c" "git (test_services c) = TestGit"
  "fs (test_services c) = mockFileSystemLayer" "path (test_services c) = posix_path"
  by (simp_all add: test_services_def)

lemma posix_path_simps: "join posix_path = posix_join" "dirname posix_path = posix_dirname"
  by (simp_all add: posix_path_def)

lemma mockFileSystemLayer_simps:
  "makeTempDirectory mockFileSystemLayer vol = (Inr (js ''/tmp/cross-repo-sync''), vol)"
  "makeDirectory mockFileSystemLayer p vol = (Inr (), vol)"
  "rename mockFileSystemLayer = vol_rename"
  by (simp_all add: mockFileSystemLayer_def)

lemma TestGit_simps:
  "config TestGit user mail vol = (Inr (), vol)"
  "repo_from_path TestGit dir vol = (Inr TestGitRepo, vol)"
  by (simp_all add: TestGit_def)

lemma TestGitRepo_simps:
  "add TestGitRepo paths w = (Inr (), w)"
  "commit TestGitRepo message w = (Inr (), w)"
  "push TestGitRepo w = (Inr (), w)"
  "status TestGitRepo w = (Inr (js '' - lots'' @ [0x0A] @ js '' - of'' @ [0x0A] @ js '' - changes''), w)"
  "rev_parse TestGitRepo ref w = (Inr (js ''test-rev-parse-hash''), w)"
  by (simp_all add: TestGitRepo_def)

lemmas path_eval = posix_join_def posix_normalize_def normalizeString_def posix_dirname_def js_def

lemma test_dirs:
  "posix_join [js ''/tmp/cross-repo-sync'', js ''destination_repo''] =
     js ''/tmp/cross-repo-sync/destination_repo''"
  "posix_join [js ''/tmp/cross-repo-sync'', js ''source_repo''] =
     js ''/tmp/cross-repo-sync/source_repo''"
  "posix_join [js ''/tmp/cross-repo-sync'', js ''target''] = js ''/tmp/cross-repo-sync/target''"
  by (simp_all add: path_eval)

lemma test_paths:
  "posix_join [js ''/tmp/cross-repo-sync/destination_repo'', js ''.git''] =
     js ''/tmp/cross-repo-sync/destination_repo/.git''"
  "posix_join [js ''/tmp/cross-repo-sync/target'', js ''.git''] =
     js ''/tmp/cross-repo-sync/target/.git''"
  "posix_join [js ''/tmp/cross-repo-sync/source_repo'', js ''test-sync-paths''] =
     js ''/tmp/cross-repo-sync/source_repo/test-sync-paths''"
  "posix_join [js ''/tmp/cross-repo-sync/target'', js ''test-sync-paths''] =
     js ''/tmp/cross-repo-sync/target/test-sync-paths''"
  "posix_dirname (js ''/tmp/cross-repo-sync/target/test-sync-paths'') =
     js ''/tmp/cross-repo-sync/target''"
  by (simp_all add: path_eval)

lemma test_clone_paths:
  "posix_join [js ''/tmp/cross-repo-sync/destination_repo'', js ''.git'', js ''config''] =
     js ''/tmp/cross-repo-sync/destination_repo/.git/config''"
  "posix_join [js ''/tmp/cross-repo-sync/destination_repo'', js ''.git'', js ''HEAD''] =
     js ''/tmp/cross-repo-sync/destination_repo/.git/HEAD''"
  "posix_join [js ''/tmp/cross-repo-sync/destination_repo'', js ''test-sync-paths'', js ''test-file''] =
     js ''/tmp/cross-repo-sync/destination_repo/test-sync-paths/test-file''"
  "posix_join [js ''/tmp/cross-repo-sync/source_repo'', js ''.git'', js ''config''] =
     js ''/tmp/cross-repo-sync/source_repo/.git/config''"
  "posix_join [js ''/tmp/cross-repo-sync/source_repo'', js ''.git'', js ''HEAD''] =
     js ''/tmp/cross-repo-sync/source_repo/.git/HEAD''"
  "posix_join [js ''/tmp/cross-repo-sync/source_repo'', js ''test-sync-paths'', js ''test-file''] =
     js ''/tmp/cross-repo-sync/source_repo/test-sync-paths/test-file''"
  by (simp_all add: path_eval)

lemma test_token_encoded:
  "encodeURIComponent (js ''test-personal-access-token'') = Some (js ''test-personal-access-token'')"
  by (simp add: js_def uri_unreserved_def)

lemmas vol_eval = vol_write_def vol_rename_def under_def startsWith_def js_def

lemma test_clone_destination:
  "clone TestGit url (js ''/tmp/cross-repo-sync/destination_repo'') [] =
     (Inr TestGitRepo,
      [(js ''/tmp/cross-repo-sync/destination_repo/test-sync-paths/test-file'',
        js ''test-file from '' @ url),
       (js ''/tmp/cross-repo-sync/destination_repo/.git/HEAD'', js ''test-HEAD''),
       (js ''/tmp/cross-repo-sync/destination_repo/.git/config'', js ''origin: '' @ url)])"
  by (simp add: TestGit_def test_clone_paths) (simp add: vol_eval)

lemma test_clone_source:
  "clone TestGit url (js ''/tmp/cross-repo-sync/source_repo'')
     [(js ''/tmp/cross-repo-sync/destination_repo/test-sync-paths/test-file'', c1),
      (js ''/tmp/cross-repo-sync/destination_repo/.git/HEAD'', c2),
      (js ''/tmp/cross-repo-sync/destination_repo/.git/config'', c3)] =
     (Inr TestGitRepo,
      [(js ''/tmp/cross-repo-sync/source_repo/test-sync-paths/test-file'',
        js ''test-file from '' @ url),
       (js ''/tmp/cross-repo-sync/source_repo/.git/HEAD'', js ''test-HEAD''),
       (js ''/tmp/cross-repo-sync/source_repo/.git/config'', js ''origin: '' @ url),
       (js ''/tmp/cross-repo-sync/destination_repo/test-sync-paths/test-file'', c1),
       (js ''/tmp/cross-repo-sync/destination_repo/.git/HEAD'', c2),
       (js ''/tmp/cross-repo-sync/destination_repo/.git/config'', c3)])"
  by (simp add: TestGit_def test_clone_paths) (simp add: vol_eval)

lemma test_rename_git:
  "vol_rename (js ''/tmp/cross-repo-sync/destination_repo/.git'')
     (js ''/tmp/cross-repo-sync/target/.git'')
     [(js ''/tmp/cross-repo-sync/source_repo/test-sync-paths/test-file'', c4),
      (js ''/tmp/cross-repo-sync/source_repo/.git/HEAD'', c5),
      (js ''/tmp/cross-repo-sync/source_repo/.git/config'', c6),
      (js ''/tmp/cross-repo-sync/destination_repo/test-sync-paths/test-file'', c1),
      (js ''/tmp/cross-repo-sync/destination_repo/.git/HEAD'', c2),
      (js ''/tmp/cross-repo-sync/destination_repo/.git/config'', c3)] =
     (Inr (),
      [(js ''/tmp/cross-repo-sync/target/.git/HEAD'', c2),
       (js ''/tmp/cross-repo-sync/target/.git/config'', c3),
       (js ''/tmp/cross-repo-sync/source_repo/test-sync-paths/test-file'', c4),
       (js ''/tmp/cross-repo-sync/source_repo/.git/HEAD'', c5),
       (js ''/tmp/cross-repo-sync/source_repo/.git/config'', c6),
       (js ''/tmp/cross-repo-sync/destination_repo/test-sync-paths/test-file'', c1)])"
  by (simp add: vol_eval)

lemma test_rename_paths:
  "vol_rename (js ''/tmp/cross-repo-sync/source_repo/test-sync-paths'')
     (js ''/tmp/cross-repo-sync/target/test-sync-paths'')
     [(js ''/tmp/cross-repo-sync/target/.git/HEAD'', c2),
      (js ''/tmp/cross-repo-sync/target/.git/config'', c3),
      (js ''/tmp/cross-repo-sync/source_repo/test-sync-paths/test-file'', c4),
      (js ''/tmp/cross-repo-sync/source_repo/.git/HEAD'', c5),
      (js ''/tmp/cross-repo-sync/source_repo/.git/config'', c6),
      (js ''/tmp/cross-repo-sync/destination_repo/test-sync-paths/test-file'', c1)] =
     (Inr (),
      [(js ''/tmp/cross-repo-sync/target/test-sync-paths/test-file'', c4),
       (js ''/tmp/cross-repo-sync/target/.git/HEAD'', c2),
       (js ''/tmp/cross-repo-sync/target/.git/config'', c3),
       (js ''/tmp/cross-repo-sync/source_repo/.git/HEAD'', c5),
       (js ''/tmp/cross-repo-sync/source_repo/.git/config'', c6),
       (js ''/tmp/cross-repo-sync/destination_repo/test-sync-paths/test-file'', c1)])"
  by (simp add: vol_eval)

lemma commit_and_push_TestGitRepo:
  "commit_and_push TestGitRepo (tr, w) =
     (Inr (js ''test-rev-parse-hash''),
      (tr @ [RepoStatus, RepoAdd [js ''.''],
             RepoCommit (js ''chore: Sync files from source repository''), RepoPush,
             RepoRevParse (js ''HEAD''),
             CoreInfo (js ''Successfully pushed changes with commit hash: '' @
                       js ''test-rev-parse-hash'')], w))"
proof -
  have "trim (js '' - lots'' @ [0x0A] @ js '' - of'' @ [0x0A] @ js '' - changes'') \<noteq> []"
    by (simp add: trim_Nil_iff js_def is_white_space_def is_line_terminator_def)
  then show ?thesis
    by (simp add: commit_and_push_def flatMap_apply call_apply emit_apply succeed_apply
        TestGitRepo_simps Let_def)
qed

lemma test_line: 
  "trim (js ''test-sync-paths'') \<noteq> []"
  "split (js ''test-sync-paths'') 0x0A = [js ''test-sync-paths'']"
  "parsed_mappings [js ''test-sync-paths''] = [(js ''test-sync-paths'', js ''test-sync-paths'')]"
  "skip_warnings [js ''test-sync-paths''] = []"
proof -
  show t: "trim (js ''test-sync-paths'') \<noteq> []" by (simp add: string_eval)
  show "split (js ''test-sync-paths'') 0x0A = [js ''test-sync-paths'']" by (simp add: js_def)
  have e: "extracted_sides (js ''test-sync-paths'') = (js ''test-sync-paths'', js ''test-sync-paths'')"
    by (simp add: extracted_sides_def string_eval)
  have s: "\<not> skipped_line (js ''test-sync-paths'')"
    by (simp add: skipped_line_def e unsafe_path_def) (simp add: string_eval)
  show "parsed_mappings [js ''test-sync-paths''] = [(js ''test-sync-paths'', js ''test-sync-paths'')]"
    using t s e by simp
  show "skip_warnings [js ''test-sync-paths''] = []" using s by simp
qed

lemma test_values:
  "js ''test-personal-access-token'' \<noteq> []" "js ''test-owner/test-source-repo'' \<noteq> []"
  "js ''test-owner/test-destination-repo'' \<noteq> []" "js ''not-a-repo'' \<noteq> []"
  "([] = js ''true'') = False" "(js ''true'' = js ''true'') = True"
  by (simp_all add: js_def)

lemma test_parse_inputs:
  assumes "source \<noteq> []"
  shows "parse_inputs
     (test_services
        (inputs_core (js ''test-personal-access-token'') (js ''test-sync-paths'') source
           (js ''test-owner/test-destination-repo'') []))
     ([], []) =
     (Inr \<lparr>personal_access_token = js ''test-personal-access-token'',
           sync_paths = [(js ''test-sync-paths'', js ''test-sync-paths'')],
           source_repo = source,
           destination_repo = js ''test-owner/test-destination-repo'',
           dry_run = False\<rparr>,
      ([CoreSetSecret (js ''test-personal-access-token'')], []))"
  by (subst parse_inputs_success)
     (simp_all only: get_input_inputs_core test_values valid_test_dst test_line simp_thms
        list.map append_Nil not_False_eq_True list.distinct assms)

lemma test_run:
  assumes "source \<noteq> []"
  shows "program
     (test_services
        (inputs_core (js ''test-personal-access-token'') (js ''test-sync-paths'') source
           (js ''test-owner/test-destination-repo'') []))
     ([], []) =
     (Inr (),
      ([CoreSetSecret (js ''test-personal-access-token''),
        AnnotateCurrentSpan (js ''personal_access_token'')
          (StringValue (js ''test-personal-access-token'')),
        AnnotateCurrentSpan (js ''sync_paths'')
          (PathsValue [(js ''test-sync-paths'', js ''test-sync-paths'')]),
        AnnotateCurrentSpan (js ''destination_repo'')
          (StringValue (js ''test-owner/test-destination-repo'')),
        AnnotateCurrentSpan (js ''dry_run'') (BoolValue False),
        AnnotateCurrentSpan (js ''source_repo'') (StringValue (source)),
        CoreInfo (starting_mark @ js '' Starting cross-repo sync to '' @
                  js ''test-owner/test-destination-repo''),
        CoreInfo (found_mark @ js '' Found '' @ js ''1'' @ js '' sync path(s):''),
        CoreInfo (js ''   '' @ js ''1'' @ js ''. '' @ js ''test-sync-paths'' @ js '' -> '' @
                  js ''test-sync-paths''),
        FsMakeTempDirectory,
        GitConfigure (js ''github-actions[bot]'')
          (js ''github-actions[bot]@users.noreply.github.com''),
        FsMakeDirectory (js ''/tmp/cross-repo-sync/target''),
        GitClone (js ''https://'' @ js ''test-personal-access-token'' @ js ''@github.com/'' @
                  js ''test-owner/test-destination-repo'' @ js ''.git'')
          (js ''/tmp/cross-repo-sync/destination_repo''),
        GitClone (js ''https://'' @ js ''test-personal-access-token'' @ js ''@github.com/'' @
                  source @ js ''.git'')
          (js ''/tmp/cross-repo-sync/source_repo''),
        FsRename (js ''/tmp/cross-repo-sync/destination_repo/.git'')
          (js ''/tmp/cross-repo-sync/target/.git''),
        GitRepoFromPath (js ''/tmp/cross-repo-sync/target''),
        FsMakeDirectory (js ''/tmp/cross-repo-sync/target''),
        FsRename (js ''/tmp/cross-repo-sync/source_repo/test-sync-paths'')
          (js ''/tmp/cross-repo-sync/target/test-sync-paths''),
        RepoStatus, RepoAdd [js ''.''],
        RepoCommit (js ''chore: Sync files from source repository''), RepoPush,
        RepoRevParse (js ''HEAD''),
        CoreInfo (js ''Successfully pushed changes with commit hash: '' @
                  js ''test-rev-parse-hash''),
        CoreSetOutput (js ''commit_hash'') (js ''test-rev-parse-hash''),
        CoreInfo (completed_mark @ js '' Cross-repo sync completed successfully'')],
       [(js ''/tmp/cross-repo-sync/target/test-sync-paths/test-file'',
         js ''test-file from '' @
         (js ''https://'' @ js ''test-personal-access-token'' @ js ''@github.com/'' @
          source @ js ''.git'')),
        (js ''/tmp/cross-repo-sync/target/.git/HEAD'', js ''test-HEAD''),
        (js ''/tmp/cross-repo-sync/target/.git/config'',
         js ''origin: '' @
         (js ''https://'' @ js ''test-personal-access-token'' @ js ''@github.com/'' @
          js ''test-owner/test-destination-repo'' @ js ''.git'')),
        (js ''/tmp/cross-repo-sync/source_repo/.git/HEAD'', js ''test-HEAD''),
        (js ''/tmp/cross-repo-sync/source_repo/.git/config'',
         js ''origin: '' @
         (js ''https://'' @ js ''test-personal-access-token'' @ js ''@github.com/'' @
          source @ js ''.git'')),
        (js ''/tmp/cross-repo-sync/destination_repo/test-sync-paths/test-file'',
         js ''test-file from '' @
         (js ''https://'' @ js ''test-personal-access-token'' @ js ''@github.com/'' @
          js ''test-owner/test-destination-repo'' @ js ''.git''))]))"
proof -
  have d: "digits (Suc 0) = js ''1''" by (simp add: js_def)
  show ?thesis
    by (simp add: program_def flatMap_apply call_apply emit_apply succeed_apply
        test_parse_inputs [OF assms] annotate_inputs_eq log_sync_paths_eq test_services_simps
        posix_path_simps mockFileSystemLayer_simps TestGit_simps configureGit_def
        clone_repo_def test_token_encoded test_dirs test_paths test_clone_destination
        test_clone_source test_rename_git test_rename_paths move_paths_def
        commit_and_push_TestGitRepo d Let_def del: digits.simps)
qed

section \<open>Dry run\<close>

text \<open>
  C7. In a run with \<open>dry_run\<close> set to \<open>true\<close>, whatever the other inputs: the trace holds
  no call of the \<open>Git\<close> service, of a repository or of the file system (no clone, commit
  or push), the world is as it was, and \<open>set_output\<close> is never called, so that the output
  \<open>commit_hash\<close> reads as the empty string. When the inputs parse, the run succeeds and has
  logged one line for each parsed mapping.
\<close>

theorem dry_run_makes_no_repository_call:
  assumes dry: "get_input (core sv) (js ''dry_run'') False = js ''true''"
  shows "\<exists>r evs.
           program sv ([], w) = (r, (evs, w)) \<and>
           (\<forall>e\<in>set evs. \<not> repository_call e) \<and>
           (\<forall>name v. CoreSetOutput name v \<notin> set evs) \<and>
           output_value evs (js ''commit_hash'') = [] \<and>
           (\<forall>inputs s. parse_inputs sv ([], w) = (Inr inputs, s) \<longrightarrow>
              r = Inr () \<and>
              (\<forall>line\<in>set (sync_path_lines (sync_paths inputs) 0). CoreInfo line \<in> set evs))"
proof -
  from parse_inputs_trace [of sv "[]" w] obtain r1 warnings where
    p: "parse_inputs sv ([], w) =
       (r1, ([] @ CoreSetSecret (get_input (core sv) (js ''personal_access_token'') True) #
              map CoreWarning warnings, w))"
    and fields: "\<And>inputs. r1 = Inr inputs \<Longrightarrow> dry_run inputs"
    using dry by auto
  let ?tr1 = "CoreSetSecret (get_input (core sv) (js ''personal_access_token'') True) #
              map CoreWarning warnings"
  have quiet1: "list_all (\<lambda>e. \<not> repository_call e \<and> (\<forall>n v. e \<noteq> CoreSetOutput n v)) ?tr1"
    by (auto simp: list_all_iff)
  show ?thesis
  proof (cases r1)
    case (Inl e)
    have run: "program sv ([], w) = (Inl e, (?tr1, w))"
      using p Inl by (simp add: program_def flatMap_apply)
    have "\<forall>e\<in>set ?tr1. \<not> repository_call e" using quiet1 by (simp add: list_all_iff)
    moreover have "\<forall>name v. CoreSetOutput name v \<notin> set ?tr1"
      using quiet1 by (auto simp: list_all_iff)
    moreover have "output_value ?tr1 (js ''commit_hash'') = []"
      using quiet1 by (rule output_value_unset)
    moreover have "\<forall>inputs s. parse_inputs sv ([], w) = (Inr inputs, s) \<longrightarrow>
              Inl e = Inr () \<and>
              (\<forall>line\<in>set (sync_path_lines (sync_paths inputs) 0). CoreInfo line \<in> set ?tr1)"
      using p Inl by simp
    ultimately show ?thesis using run by blast
  next
    case (Inr inputs)
    have p': "parse_inputs sv ([], w) = (Inr inputs, (?tr1, w))" using p Inr by simp
    note run = program_dry_run [OF p' fields [OF Inr]]
    let ?evs = "?tr1 @
       [AnnotateCurrentSpan (js ''personal_access_token'')
          (StringValue (personal_access_token inputs)),
        AnnotateCurrentSpan (js ''sync_paths'') (PathsValue (sync_paths inputs)),
        AnnotateCurrentSpan (js ''destination_repo'') (StringValue (destination_repo inputs)),
        AnnotateCurrentSpan (js ''dry_run'') (BoolValue (dry_run inputs)),
        AnnotateCurrentSpan (js ''source_repo'') (StringValue (source_repo inputs)),
        CoreInfo (starting_mark @ js '' Starting cross-repo sync to '' @ destination_repo inputs @
                  js '' (DRY RUN)''),
        CoreInfo (found_mark @ js '' Found '' @ digits (length (sync_paths inputs)) @
                  js '' sync path(s):'')] @
       map CoreInfo (sync_path_lines (sync_paths inputs) 0) @
       [CoreInfo (dry_run_mark @ js '' Running in dry-run mode - no actual changes will be made'')]"
    have quiet: "list_all (\<lambda>e. \<not> repository_call e \<and> (\<forall>n v. e \<noteq> CoreSetOutput n v)) ?evs"
      by (auto simp: list_all_iff)
    have "\<forall>e\<in>set ?evs. \<not> repository_call e" using quiet by (simp add: list_all_iff)
    moreover have "\<forall>name v. CoreSetOutput name v \<notin> set ?evs"
      using quiet by (auto simp: list_all_iff)
    moreover have "output_value ?evs (js ''commit_hash'') = []"
      using quiet by (rule output_value_unset)
    moreover have "\<forall>inputs' s. parse_inputs sv ([], w) = (Inr inputs', s) \<longrightarrow>
              Inr () = Inr () \<and>
              (\<forall>line\<in>set (sync_path_lines (sync_paths inputs') 0). CoreInfo line \<in> set ?evs)"
      using p' by auto
    ultimately show ?thesis using run by blast
  qed
qed

theorem dry_run_makes_no_repository_call_witness:
  "fst (program
     (test_services
        (inputs_core (js ''test-personal-access-token'') (js ''test-sync-paths'')
           (js ''test-owner/test-source-repo'') (js ''test-owner/test-destination-repo'')
           (js ''true'')))
     ([], [])) = Inr () \<and>
   CoreInfo (js ''   1. test-sync-paths -> test-sync-paths'') \<in>
     set (fst (snd (program
       (test_services
          (inputs_core (js ''test-personal-access-token'') (js ''test-sync-paths'')
             (js ''test-owner/test-source-repo'') (js ''test-owner/test-destination-repo'')
             (js ''true'')))
       ([], []))))"
proof -
  let ?sv = "test_services
        (inputs_core (js ''test-personal-access-token'') (js ''test-sync-paths'')
           (js ''test-owner/test-source-repo'') (js ''test-owner/test-destination-repo'')
           (js ''true''))"
  have dry: "get_input (core ?sv) (js ''dry_run'') False = js ''true''"
    by (simp only: get_input_inputs_core)
  have p: "parse_inputs ?sv ([], []) =
     (Inr \<lparr>personal_access_token = js ''test-personal-access-token'',
           sync_paths = [(js ''test-sync-paths'', js ''test-sync-paths'')],
           source_repo = js ''test-owner/test-source-repo'',
           destination_repo = js ''test-owner/test-destination-repo'',
           dry_run = True\<rparr>,
      ([CoreSetSecret (js ''test-personal-access-token'')], []))"
    by (subst parse_inputs_success)
       (simp_all only: get_input_inputs_core test_values valid_test_dst test_line simp_thms
          list.map append_Nil not_False_eq_True list.distinct)
  have line: "js ''   1. test-sync-paths -> test-sync-paths'' \<in>
      set (sync_path_lines [(js ''test-sync-paths'', js ''test-sync-paths'')] 0)"
    by (simp add: js_def)
  from dry_run_makes_no_repository_call [OF dry, of "[]"] obtain r evs where
    run: "program ?sv ([], []) = (r, (evs, []))"
    and logged: "\<forall>inputs s. parse_inputs ?sv ([], []) = (Inr inputs, s) \<longrightarrow>
              r = Inr () \<and>
              (\<forall>line\<in>set (sync_path_lines (sync_paths inputs) 0). CoreInfo line \<in> set evs)"
    by blast
  from logged p have "r = Inr ()"
    and "\<forall>line\<in>set (sync_path_lines [(js ''test-sync-paths'', js ''test-sync-paths'')] 0).
           CoreInfo line \<in> set evs"
    by auto
  with line run show ?thesis by auto
qed

section \<open>Every event of a run\<close>

text \<open>
  Every event of a run after \<open>set_secret\<close> satisfies \<open>program_event\<close>, for the directory
  that \<open>makeTempDirectory\<close> returns in the world the run starts in: the world is still that
  one when \<open>program\<close> calls it.
\<close>

lemma emits_only_move_paths:
  "emits_only (program_event (path sv) (Some temp_dir) inputs warnings)
     (move_each sv (sync_paths inputs) (join (path sv) [temp_dir, js ''source_repo''])
        (join (path sv) [temp_dir, js ''target'']))"
  by (rule emits_only_move_each) auto

lemma flatMap_emit: "flatMap (emit ev) f (tr, w) = f () (tr @ [ev], w)"
  by (simp add: flatMap_apply emit_apply)

lemma flatMap_annotate_inputs:
  "flatMap (annotate_inputs inputs) f (tr, w) =
     f () (tr @ [AnnotateCurrentSpan (js ''personal_access_token'')
                   (StringValue (personal_access_token inputs)),
                 AnnotateCurrentSpan (js ''sync_paths'') (PathsValue (sync_paths inputs)),
                 AnnotateCurrentSpan (js ''destination_repo'')
                   (StringValue (destination_repo inputs)),
                 AnnotateCurrentSpan (js ''dry_run'') (BoolValue (dry_run inputs)),
                 AnnotateCurrentSpan (js ''source_repo'') (StringValue (source_repo inputs))], w)"
  by (simp add: flatMap_apply annotate_inputs_eq)

lemma flatMap_log_sync_paths:
  "flatMap (log_sync_paths ps i) f (tr, w) = f () (tr @ map CoreInfo (sync_path_lines ps i), w)"
  by (simp add: flatMap_apply log_sync_paths_eq)

lemma program_trace:
  assumes temp: "temp = (case makeTempDirectory (fs sv) w of
                           (Inr temp_dir, w1) \<Rightarrow> Some temp_dir
                         | (Inl e, w1) \<Rightarrow> None)"
  shows "\<exists>r evs w'.
     program sv (tr, w) =
       (r, (tr @ CoreSetSecret (get_input (core sv) (js ''personal_access_token'') True) # evs, w')) \<and>
     list_all (program_event (path sv) temp (action_inputs (core sv))
                 (skip_warnings (split (get_input (core sv) (js ''sync_paths'') True) 0x0A))) evs"
proof -
  let ?ws = "skip_warnings (split (get_input (core sv) (js ''sync_paths'') True) 0x0A)"
  let ?inputs = "action_inputs (core sv)"
  let ?P = "program_event (path sv) temp ?inputs ?ws"
  from parse_inputs_result [of sv tr w] show ?thesis
  proof (elim disjE exE conjE)
    fix e warnings
    assume p: "parse_inputs sv (tr, w) =
        (Inl e, (tr @ CoreSetSecret (get_input (core sv) (js ''personal_access_token'') True) #
                   map CoreWarning warnings, w))"
      and sub: "set warnings \<subseteq> set ?ws"
    have "program sv (tr, w) =
        (Inl e, (tr @ CoreSetSecret (get_input (core sv) (js ''personal_access_token'') True) #
                   map CoreWarning warnings, w))"
      unfolding program_def by (simp add: flatMap_apply p)
    moreover have "list_all ?P (map CoreWarning warnings)"
      using sub by (auto simp: list_all_iff)
    ultimately show ?thesis by blast
  next
    assume p: "parse_inputs sv (tr, w) =
       (Inr ?inputs,
        (tr @ CoreSetSecret (get_input (core sv) (js ''personal_access_token'') True) #
           map CoreWarning ?ws, w))"
    have pre: "list_all ?P
        (map CoreWarning ?ws @
         AnnotateCurrentSpan (js ''personal_access_token'')
           (StringValue (personal_access_token ?inputs)) #
         AnnotateCurrentSpan (js ''sync_paths'') (PathsValue (sync_paths ?inputs)) #
         AnnotateCurrentSpan (js ''destination_repo'') (StringValue (destination_repo ?inputs)) #
         AnnotateCurrentSpan (js ''dry_run'') (BoolValue (dry_run ?inputs)) #
         AnnotateCurrentSpan (js ''source_repo'') (StringValue (source_repo ?inputs)) #
         CoreInfo (starting_mark @ js '' Starting cross-repo sync to '' @
                   destination_repo ?inputs @
                   (if dry_run ?inputs then js '' (DRY RUN)'' else [])) #
         CoreInfo (found_mark @ js '' Found '' @ digits (length (sync_paths ?inputs)) @
                   js '' sync path(s):'') #
         map CoreInfo (sync_path_lines (sync_paths ?inputs) 0))"
      by (auto simp: list_all_iff simp del: digits.simps)
    obtain rt wt where t: "makeTempDirectory (fs sv) w = (rt, wt)"
      by (cases "makeTempDirectory (fs sv) w")
    show ?thesis
    proof (cases "dry_run ?inputs")
      case True
      have m: "emits_only ?P
          (flatMap (emit (CoreInfo (dry_run_mark @
                      js '' Running in dry-run mode - no actual changes will be made'')))
             (\<lambda>_. succeed ()))"
        by (intro emits_only_flatMap emits_only_emit emits_only_succeed)
           (simp del: digits.simps)
      show ?thesis
        unfolding program_def
        apply (subst flatMap_Inr [where m = "parse_inputs sv" and s = "(tr, w)", OF p])
        apply (subst flatMap_annotate_inputs)
        apply (subst flatMap_emit)
        apply (subst flatMap_emit)
        apply (subst flatMap_log_sync_paths)
        apply (subst if_apply_True [OF True])
        apply (simp only: append_assoc append.simps)
        apply (rule emits_only_after [OF m])
        apply (rule pre)
        done
    next
      case False
      show ?thesis
      proof (cases rt)
        case (Inl pe)
        have t': "makeTempDirectory (fs sv) w = (Inl pe, wt)" using t Inl by simp
        show ?thesis
          unfolding program_def
          apply (subst flatMap_Inr [where m = "parse_inputs sv" and s = "(tr, w)", OF p])
          apply (subst flatMap_annotate_inputs)
          apply (subst flatMap_emit)
          apply (subst flatMap_emit)
          apply (subst flatMap_log_sync_paths)
          apply (subst if_apply_False [OF False])
          apply (simp only: append_assoc append.simps)
          apply (rule emits_only_after_call_Inl [where op = "makeTempDirectory (fs sv)", OF t'])
           apply (rule pre)
          apply simp
          done
      next
        case (Inr temp_dir)
        have t': "makeTempDirectory (fs sv) w = (Inr temp_dir, wt)" using t Inr by simp
        have temp': "temp = Some temp_dir" using temp t' by simp
        show ?thesis
          unfolding program_def
          apply (subst flatMap_Inr [where m = "parse_inputs sv" and s = "(tr, w)", OF p])
          apply (subst flatMap_annotate_inputs)
          apply (subst flatMap_emit)
          apply (subst flatMap_emit)
          apply (subst flatMap_log_sync_paths)
          apply (subst if_apply_False [OF False])
          apply (simp only: append_assoc append.simps)
          apply (rule emits_only_after_call [where op = "makeTempDirectory (fs sv)", OF t' _ pre])
           apply (unfold Let_def configureGit_def move_paths_def temp')
           apply (intro emits_only_flatMap emits_only_call emits_only_emit emits_only_clone_repo
              emits_only_move_paths emits_only_commit_and_push)
                            apply (simp_all add: startsWith_def del: digits.simps)
          done
      qed
    qed
  qed
qed

section \<open>Working directories\<close>

text \<open>
  C8 does not hold of \<open>program.ts\<close>. No run ever calls \<open>remove\<close>: the trace of
  \<open>program\<close> has no \<open>FsRemove\<close> event, whatever the services do. The run of the
  repository's test succeeds, has created the temporary directory, and ends with the
  files of the merged tree still under it.
\<close>

theorem temp_directory_is_never_removed:
  "FsRemove p \<notin> set (fst (snd (program sv ([], w)))) \<and>
   fst (program (test_services TestCore) ([], [])) = Inr () \<and>
   FsMakeTempDirectory \<in> set (fst (snd (program (test_services TestCore) ([], [])))) \<and>
   map_of (snd (snd (program (test_services TestCore) ([], []))))
     (js ''/tmp/cross-repo-sync/target/.git/HEAD'') = Some (js ''test-HEAD'')"
proof (intro conjI)
  show "fst (program (test_services TestCore) ([], [])) = Inr ()"
    unfolding TestCore_def by (simp add: test_run [OF test_values(2)])
  show "FsMakeTempDirectory \<in> set (fst (snd (program (test_services TestCore) ([], []))))"
    unfolding TestCore_def by (simp add: test_run [OF test_values(2)])
  show "map_of (snd (snd (program (test_services TestCore) ([], []))))
     (js ''/tmp/cross-repo-sync/target/.git/HEAD'') = Some (js ''test-HEAD'')"
    unfolding TestCore_def by (simp add: test_run [OF test_values(2)]) (simp add: js_def)
next
  from program_trace [where sv = sv and w = w and tr = "[]", OF refl] obtain r evs w' where
    run: "program sv ([], w) =
       (r, ([] @ CoreSetSecret (get_input (core sv) (js ''personal_access_token'') True) # evs, w'))"
    and evs: "list_all
       (program_event (path sv)
          (case makeTempDirectory (fs sv) w of
             (Inr temp_dir, w1) \<Rightarrow> Some temp_dir
           | (Inl e, w1) \<Rightarrow> None)
          (action_inputs (core sv))
          (skip_warnings (split (get_input (core sv) (js ''sync_paths'') True) 0x0A))) evs"
    by blast
  have "FsRemove p \<notin> set evs"
    using evs by (auto simp: list_all_iff)
  then show "FsRemove p \<notin> set (fst (snd (program sv ([], w))))" using run by simp
qed

section \<open>Percent-encoding\<close>

text \<open>What \<open>encodeURIComponent\<close> returns holds only unreserved characters and \<open>%\<close>.\<close>

lemma hex_digits_unreserved: "list_all (\<lambda>n. uri_unreserved (hex_digit n)) [0..<16]"
  by (simp add: upt_rec hex_digit_def uri_unreserved_def)

lemma hex_digit_unreserved: "n < 16 \<Longrightarrow> uri_unreserved (hex_digit n)"
  using hex_digits_unreserved by (simp add: list_all_iff)

lemma percent_byte_chars:
  "b < 256 \<Longrightarrow> c \<in> set (percent_byte b) \<Longrightarrow> uri_unreserved c \<or> c = 0x25"
  by (auto simp: percent_byte_def intro!: hex_digit_unreserved)

lemma utf8_bytes: "cp < 0x110000 \<Longrightarrow> b \<in> set (utf8 cp) \<Longrightarrow> b < 256"
  by (auto simp: utf8_def split: if_splits)

lemma percent_encode_chars:
  "cp < 0x110000 \<Longrightarrow> c \<in> set (percent_encode cp) \<Longrightarrow> uri_unreserved c \<or> c = 0x25"
  by (auto simp: percent_encode_def dest: utf8_bytes percent_byte_chars)

lemma code_unit_bound: "unat (c :: jschar) < 0x110000"
proof -
  have "unat c < 2 ^ LENGTH(16)" by (rule unsigned_less)
  then show ?thesis by simp
qed

lemma surrogate_pair_bound:
  assumes "(c :: jschar) \<le> 0xDBFF" and "(d :: jschar) \<le> 0xDFFF"
  shows "0x10000 + (unat c - 0xD800) * 0x400 + (unat d - 0xDC00) < (0x110000 :: nat)"
proof -
  have "unat c \<le> 0xDBFF" using assms(1) by (simp add: word_le_nat_alt)
  moreover have "unat d \<le> 0xDFFF" using assms(2) by (simp add: word_le_nat_alt)
  ultimately show ?thesis by simp
qed

lemma encodeURIComponent_chars:
  "encodeURIComponent s = Some encoded \<Longrightarrow> c \<in> set encoded \<Longrightarrow>
     uri_unreserved c \<or> c = 0x25"
proof (induction s arbitrary: encoded rule: encodeURIComponent.induct)
  case 1
  then show ?case by simp
next
  case (2 u us)
  show ?case
  proof (cases "uri_unreserved u")
    case True
    with "2.prems" "2.IH"(1) show ?thesis by auto
  next
    case False
    note nu = False
    show ?thesis
    proof (cases "0xDC00 \<le> u \<and> u \<le> 0xDFFF")
      case True
      with "2.prems" nu show ?thesis by simp
    next
      case False
      note nl = False
      show ?thesis
      proof (cases "0xD800 \<le> u \<and> u \<le> 0xDBFF")
        case True
        with "2.prems" nu nl obtain d ds rest where
          us: "us = d # ds" and d: "0xDC00 \<le> d \<and> d \<le> 0xDFFF"
          and rest: "encodeURIComponent ds = Some rest"
          and enc: "encoded =
            percent_encode (0x10000 + (unat u - 0xD800) * 0x400 + (unat d - 0xDC00)) @ rest"
          by (auto split: list.splits if_splits)
        have "c \<in> set rest \<Longrightarrow> uri_unreserved c \<or> c = 0x25"
          using "2.IH"(2) [OF nu nl True us _ rest] d by simp
        moreover have "c \<in> set (percent_encode
              (0x10000 + (unat u - 0xD800) * 0x400 + (unat d - 0xDC00))) \<Longrightarrow>
            uri_unreserved c \<or> c = 0x25"
          using percent_encode_chars surrogate_pair_bound True d by blast
        ultimately show ?thesis using "2.prems"(2) enc by auto
      next
        case False
        with "2.prems" nu nl obtain rest where
          rest: "encodeURIComponent us = Some rest"
          and enc: "encoded = percent_encode (unat u) @ rest"
          by auto
        have "c \<in> set rest \<Longrightarrow> uri_unreserved c \<or> c = 0x25"
          using "2.IH"(3) [OF nu nl False rest] by simp
        moreover have "c \<in> set (percent_encode (unat u)) \<Longrightarrow> uri_unreserved c \<or> c = 0x25"
          using percent_encode_chars code_unit_bound by blast
        ultimately show ?thesis using "2.prems"(2) enc by auto
      qed
    qed
  qed
qed

section \<open>The credential\<close>

text \<open>
  C9. In every run the first event is \<open>set_secret\<close> of the raw credential, so that it is
  masked before any URL is built, and \<open>set_secret\<close> is not called again. Every \<open>clone\<close> is
  of \<open>https://<encodeURIComponent(token)>@github.com/<repo>.git\<close>, where the encoded token
  holds nothing but unreserved characters and \<open>%\<close> escapes, into the directory
  \<open>destination_repo\<close> (for the destination repository) or \<open>source_repo\<close> (for the source
  repository) of the directory \<open>temp_dir\<close> that \<open>makeTempDirectory\<close> returned. Every other
  call has arguments that do not come from the credential: the bot's identity,
  \<open>add(["."])\<close>, the fixed commit message, \<open>rev_parse("HEAD")\<close>, and paths joined from
  \<open>temp_dir\<close>, fixed names and the parsed mappings; the log lines are the program's
  messages, over the destination repository, the mappings and the commit hash. The raw
  value is given once more, to the tracing span by \<open>annotateCurrentSpan\<close>, after
  \<open>set_secret\<close>; that is not a command.
\<close>

theorem credential_reaches_git_only_in_clone_url:
  "let token = get_input (core sv) (js ''personal_access_token'') True;
       dst = get_input (core sv) (js ''destination_repo'') True;
       src = get_input (core sv) (js ''source_repo'') True;
       dry = (get_input (core sv) (js ''dry_run'') False = js ''true'');
       lines = split (get_input (core sv) (js ''sync_paths'') True) 0x0A;
       mappings = parsed_mappings lines
   in
   \<exists>r evs w'.
     program sv ([], w) = (r, (CoreSetSecret token # evs, w')) \<and>
     (\<forall>e\<in>set evs.
        case e of
          GitClone url dir \<Rightarrow>
            (\<exists>encoded temp_dir w1.
               makeTempDirectory (fs sv) w = (Inr temp_dir, w1) \<and>
               encodeURIComponent token = Some encoded \<and>
               (\<forall>c\<in>set encoded. uri_unreserved c \<or> c = 0x25) \<and>
               (url = js ''https://'' @ encoded @ js ''@github.com/'' @ dst @ js ''.git'' \<and>
                dir = join (path sv) [temp_dir, js ''destination_repo''] \<or>
                url = js ''https://'' @ encoded @ js ''@github.com/'' @ src @ js ''.git'' \<and>
                dir = join (path sv) [temp_dir, js ''source_repo'']))
        | GitConfigure name mail \<Rightarrow>
            name = js ''github-actions[bot]'' \<and>
            mail = js ''github-actions[bot]@users.noreply.github.com''
        | GitRepoFromPath dir \<Rightarrow>
            (\<exists>temp_dir w1.
               makeTempDirectory (fs sv) w = (Inr temp_dir, w1) \<and>
               dir = join (path sv) [temp_dir, js ''target''])
        | RepoStatus \<Rightarrow> True
        | RepoAdd paths \<Rightarrow> paths = [js ''.'']
        | RepoCommit message \<Rightarrow> message = js ''chore: Sync files from source repository''
        | RepoPush \<Rightarrow> True
        | RepoRevParse ref \<Rightarrow> ref = js ''HEAD''
        | FsMakeTempDirectory \<Rightarrow> True
        | FsMakeDirectory dir \<Rightarrow>
            (\<exists>temp_dir w1.
               makeTempDirectory (fs sv) w = (Inr temp_dir, w1) \<and>
               (dir = join (path sv) [temp_dir, js ''target''] \<or>
                (\<exists>(source, destination)\<in>set mappings.
                   dir = dirname (path sv)
                           (join (path sv) [join (path sv) [temp_dir, js ''target''], destination]))))
        | FsRename old new \<Rightarrow>
            (\<exists>temp_dir w1.
               makeTempDirectory (fs sv) w = (Inr temp_dir, w1) \<and>
               (old = join (path sv) [join (path sv) [temp_dir, js ''destination_repo''], js ''.git''] \<and>
                new = join (path sv) [join (path sv) [temp_dir, js ''target''], js ''.git''] \<or>
                (\<exists>(source, destination)\<in>set mappings.
                   old = join (path sv) [join (path sv) [temp_dir, js ''source_repo''], source] \<and>
                   new = join (path sv) [join (path sv) [temp_dir, js ''target''], destination])))
        | FsRemove dir \<Rightarrow> False
        | AnnotateCurrentSpan key v \<Rightarrow>
            key = js ''personal_access_token'' \<and> v = StringValue token \<or>
            key = js ''sync_paths'' \<and> v = PathsValue mappings \<or>
            key = js ''destination_repo'' \<and> v = StringValue dst \<or>
            key = js ''dry_run'' \<and> v = BoolValue dry \<or>
            key = js ''source_repo'' \<and> v = StringValue src
        | CoreSetSecret s \<Rightarrow> False
        | CoreSetOutput name v \<Rightarrow> name = js ''commit_hash''
        | CoreWarning m \<Rightarrow> m \<in> set (skip_warnings lines)
        | CoreInfo m \<Rightarrow>
            m = starting_mark @ js '' Starting cross-repo sync to '' @ dst @
                (if dry then js '' (DRY RUN)'' else []) \<or>
            m = found_mark @ js '' Found '' @ digits (length mappings) @ js '' sync path(s):'' \<or>
            m \<in> set (sync_path_lines mappings 0) \<or>
            m = dry_run_mark @ js '' Running in dry-run mode - no actual changes will be made'' \<or>
            m = js ''No changes detected, skipping commit and push'' \<or>
            (\<exists>commit_hash.
               m = js ''Successfully pushed changes with commit hash: '' @ commit_hash) \<or>
            m = completed_mark @ js '' Cross-repo sync completed successfully'')"
proof -
  let ?temp = "case makeTempDirectory (fs sv) w of
                 (Inr temp_dir, w1) \<Rightarrow> Some temp_dir
               | (Inl e, w1) \<Rightarrow> None"
  from program_trace [where sv = sv and w = w and tr = "[]", OF refl] obtain r evs w' where
    run: "program sv ([], w) =
       (r, ([] @ CoreSetSecret (get_input (core sv) (js ''personal_access_token'') True) # evs, w'))"
    and evs: "list_all (program_event (path sv) ?temp (action_inputs (core sv))
                 (skip_warnings (split (get_input (core sv) (js ''sync_paths'') True) 0x0A))) evs"
    by blast
  have prefix: "\<And>m s. startsWith m s \<Longrightarrow> \<exists>rest. m = s @ rest"
  proof -
    fix m s :: jsstring
    assume "startsWith m s"
    then have "m = s @ drop (length s) m"
      unfolding startsWith_def by (metis append_take_drop_id)
    then show "\<exists>rest. m = s @ rest" ..
  qed
  show ?thesis
    unfolding Let_def
    apply (rule exI [of _ r], rule exI [of _ evs], rule exI [of _ w'])
    apply (rule conjI)
     apply (use run in simp)
    apply (rule ballI)
    subgoal for e
    proof -
      assume "e \<in> set evs"
      with evs have "program_event (path sv) ?temp (action_inputs (core sv))
                 (skip_warnings (split (get_input (core sv) (js ''sync_paths'') True) 0x0A)) e"
        by (simp add: list_all_iff)
      then show ?thesis
        by (cases e)
           (auto simp: action_inputs_def clone_url_def
              split: option.splits prod.splits sum.splits
              dest: encodeURIComponent_chars prefix simp del: digits.simps)
    qed
    done
qed

theorem credential_reaches_git_only_in_clone_url_witness:
  "hd (fst (snd (program (test_services TestCore) ([], [])))) =
     CoreSetSecret (js ''test-personal-access-token'') \<and>
   GitClone
     (js ''https://test-personal-access-token@github.com/test-owner/test-destination-repo.git'')
     (js ''/tmp/cross-repo-sync/destination_repo'') \<in>
     set (tl (fst (snd (program (test_services TestCore) ([], []))))) \<and>
   (\<exists>encoded temp_dir w1.
      makeTempDirectory (fs (test_services TestCore)) [] = (Inr temp_dir, w1) \<and>
      encodeURIComponent (js ''test-personal-access-token'') = Some encoded \<and>
      (\<forall>c\<in>set encoded. uri_unreserved c \<or> c = 0x25) \<and>
      (js ''https://test-personal-access-token@github.com/test-owner/test-destination-repo.git'' =
         js ''https://'' @ encoded @ js ''@github.com/'' @
         js ''test-owner/test-destination-repo'' @ js ''.git'' \<and>
       js ''/tmp/cross-repo-sync/destination_repo'' =
         join (path (test_services TestCore)) [temp_dir, js ''destination_repo''] \<or>
       js ''https://test-personal-access-token@github.com/test-owner/test-destination-repo.git'' =
         js ''https://'' @ encoded @ js ''@github.com/'' @
         js ''test-owner/test-source-repo'' @ js ''.git'' \<and>
       js ''/tmp/cross-repo-sync/destination_repo'' =
         join (path (test_services TestCore)) [temp_dir, js ''source_repo'']))"
proof -
  let ?sv = "test_services TestCore :: (volume, mock_error) services"
  let ?url = "js ''https://test-personal-access-token@github.com/test-owner/test-destination-repo.git''"
  let ?dir = "js ''/tmp/cross-repo-sync/destination_repo''"
  have g: "get_input (core ?sv) (js ''personal_access_token'') True = js ''test-personal-access-token''"
    "get_input (core ?sv) (js ''destination_repo'') True = js ''test-owner/test-destination-repo''"
    "get_input (core ?sv) (js ''source_repo'') True = js ''test-owner/test-source-repo''"
    unfolding TestCore_def by (simp_all only: get_input_inputs_core)
  have u: "js ''https://'' @ js ''test-personal-access-token'' @ js ''@github.com/'' @
      js ''test-owner/test-destination-repo'' @ js ''.git'' = ?url"
    by (simp add: js_def)
  have first: "hd (fst (snd (program ?sv ([], [])))) = CoreSetSecret (js ''test-personal-access-token'')"
    unfolding TestCore_def by (simp add: test_run [OF test_values(2)])
  have cloned: "GitClone ?url ?dir \<in> set (tl (fst (snd (program ?sv ([], [])))))"
    unfolding TestCore_def by (simp add: test_run [OF test_values(2)] u)
  note t = credential_reaches_git_only_in_clone_url [of ?sv "[]", unfolded Let_def g]
  show ?thesis
    apply (insert t)
    apply (elim exE conjE)
    subgoal for r evs w'
      apply (drule bspec [where x = "GitClone ?url ?dir"])
       apply (use cloned in simp)
      apply (simp only: event.case)
      apply (use first cloned in simp)
      done
    done
qed

section \<open>Repository identifiers\<close>

text \<open>
  C6 holds of the destination repository identifier and not of the source one.
  \<open>parse_inputs\<close> tests \<open>destination_repo\<close> against the pattern \<open>owner/repo\<close>: when it does
  not match, the run fails with the error \<open>Invalid repository format\<close> after
  \<open>set_secret\<close> alone, the world unchanged. It tests \<open>source_repo\<close> only for emptiness:
  with the inputs of the test and \<open>source_repo = "not-a-repo"\<close> (no slash), the run passes
  validation, clones both repositories, the second from
  \<open>https://<token>@github.com/not-a-repo.git\<close>, and succeeds.
\<close>

theorem malformed_source_repo_is_cloned:
  \<open>(get_input (core sv) (js ''personal_access_token'') True \<noteq> [] \<and>
    get_input (core sv) (js ''destination_repo'') True \<noteq> [] \<and>
    get_input (core sv) (js ''source_repo'') True \<noteq> [] \<and>
    \<not> valid_repo_format (get_input (core sv) (js ''destination_repo'') True) \<longrightarrow>
    program sv (tr, w) =
      (Inl (Error (js ''Invalid repository format: "'' @
                   get_input (core sv) (js ''destination_repo'') True @
                   js ''". Expected format: "owner/repo"'')),
       (tr @ [CoreSetSecret (get_input (core sv) (js ''personal_access_token'') True)], w))) \<and>
   \<not> valid_repo_format (js ''not-a-repo'') \<and>
   fst (program
          (test_services
             (inputs_core (js ''test-personal-access-token'') (js ''test-sync-paths'')
                (js ''not-a-repo'') (js ''test-owner/test-destination-repo'') []))
          ([], [])) = Inr () \<and>
   GitClone (js ''https://test-personal-access-token@github.com/not-a-repo.git'')
     (js ''/tmp/cross-repo-sync/source_repo'') \<in>
     set (fst (snd (program
       (test_services
          (inputs_core (js ''test-personal-access-token'') (js ''test-sync-paths'')
             (js ''not-a-repo'') (js ''test-owner/test-destination-repo'') []))
       ([], []))))\<close>
proof -
  have d: \<open>get_input (core sv) (js ''personal_access_token'') True \<noteq> [] \<and>
    get_input (core sv) (js ''destination_repo'') True \<noteq> [] \<and>
    get_input (core sv) (js ''source_repo'') True \<noteq> [] \<and>
    \<not> valid_repo_format (get_input (core sv) (js ''destination_repo'') True) \<longrightarrow>
    program sv (tr, w) =
      (Inl (Error (js ''Invalid repository format: "'' @
                   get_input (core sv) (js ''destination_repo'') True @
                   js ''". Expected format: "owner/repo"'')),
       (tr @ [CoreSetSecret (get_input (core sv) (js ''personal_access_token'') True)], w))\<close>
    by (simp add: program_def flatMap_apply parse_inputs_eq Let_def)
  have v: "\<not> valid_repo_format (js ''not-a-repo'')"
    by (simp add: valid_repo_format_def is_repo_char_def js_def)
  have u: "js ''https://'' @ js ''test-personal-access-token'' @ js ''@github.com/'' @
      js ''not-a-repo'' @ js ''.git'' =
      js ''https://test-personal-access-token@github.com/not-a-repo.git''"
    by (simp add: js_def)
  have "fst (program
          (test_services
             (inputs_core (js ''test-personal-access-token'') (js ''test-sync-paths'')
                (js ''not-a-repo'') (js ''test-owner/test-destination-repo'') []))
          ([], [])) = Inr ()"
    by (simp add: test_run [OF test_values(4)])
  moreover have "GitClone (js ''https://test-personal-access-token@github.com/not-a-repo.git'')
     (js ''/tmp/cross-repo-sync/source_repo'') \<in>
     set (fst (snd (program
       (test_services
          (inputs_core (js ''test-personal-access-token'') (js ''test-sync-paths'')
             (js ''not-a-repo'') (js ''test-owner/test-destination-repo'') []))
       ([], []))))"
    by (simp add: test_run [OF test_values(4)] u)
  ultimately show ?thesis using d v by blast
qed

theorem malformed_source_repo_is_cloned_witness:
  \<open>program
     (test_services
        (inputs_core (js ''test-personal-access-token'') (js ''test-sync-paths'')
           (js ''test-owner/test-source-repo'') (js ''not-a-repo'') []))
     ([], []) =
   (Inl (Error (js ''Invalid repository format: "not-a-repo". Expected format: "owner/repo"'')),
    ([CoreSetSecret (js ''test-personal-access-token'')], []))\<close>
proof -
  let ?sv = "test_services
        (inputs_core (js ''test-personal-access-token'') (js ''test-sync-paths'')
           (js ''test-owner/test-source-repo'') (js ''not-a-repo'') []) ::
        (volume, mock_error) services"
  have v: "\<not> valid_repo_format (js ''not-a-repo'')"
    by (simp add: valid_repo_format_def is_repo_char_def js_def)
  have h: "get_input (core ?sv) (js ''personal_access_token'') True \<noteq> [] \<and>
    get_input (core ?sv) (js ''destination_repo'') True \<noteq> [] \<and>
    get_input (core ?sv) (js ''source_repo'') True \<noteq> [] \<and>
    \<not> valid_repo_format (get_input (core ?sv) (js ''destination_repo'') True)"
    by (simp only: get_input_inputs_core test_values v simp_thms)
  have m: \<open>js ''Invalid repository format: "'' @ js ''not-a-repo'' @
      js ''". Expected format: "owner/repo"'' =
      js ''Invalid repository format: "not-a-repo". Expected format: "owner/repo"''\<close>
    by (simp add: js_def)
  from malformed_source_repo_is_cloned [of ?sv "[]" "[]", THEN conjunct1, THEN mp, OF h]
  show ?thesis
    by (simp only: get_input_inputs_core m append_Nil)
qed

section \<open>Composing the merged tree\<close>











section \<open>Normal paths\<close>

text \<open>\<open>join\<close> returns a normalized path, and normalizing a normalized path changes nothing.\<close>

lemma split_no_sep: "sep \<notin> set s \<Longrightarrow> split s sep = [s]"
  by (induction s) auto

lemma split_append_sep:
  "sep \<notin> set x \<Longrightarrow> split (x @ sep # t) sep = x # split t sep"
proof (induction x)
  case Nil
  show ?case using split_not_Nil [of t sep] by (cases "split t sep") auto
next
  case (Cons c x)
  then show ?case by auto
qed

lemma split_snoc_sep: "split (s @ [sep]) sep = split s sep @ [[]]"
proof (induction s)
  case Nil
  show ?case by simp
next
  case (Cons c s)
  obtain y ys where r: "split s sep = y # ys"
    using split_not_Nil [of s sep] by (cases "split s sep") auto
  with Cons show ?case by auto
qed

lemma split_segments_no_sep: "seg \<in> set (split s sep) \<Longrightarrow> sep \<notin> set seg"
proof (induction s arbitrary: seg)
  case Nil
  then show ?case by simp
next
  case (Cons c s)
  obtain y ys where r: "split s sep = y # ys"
    using split_not_Nil [of s sep] by (cases "split s sep") auto
  have y: "sep \<notin> set y" using Cons.IH [of y] r by simp
  have ys: "\<And>z. z \<in> set ys \<Longrightarrow> sep \<notin> set z" using Cons.IH r by simp
  from Cons.prems r show ?case
    by (auto split: if_splits simp: y dest: ys)
qed

lemma split_intercalate:
  "segs \<noteq> [] \<Longrightarrow> \<forall>s\<in>set segs. sep \<notin> set s \<Longrightarrow> split (intercalate [sep] segs) sep = segs"
proof (induction "[sep]" segs rule: intercalate.induct)
  case 1
  then show ?case by simp
next
  case (2 x)
  then show ?case by (simp add: split_no_sep)
next
  case (3 x y ys)
  then show ?case by (simp add: split_append_sep)
qed

lemma normalize_segments_append:
  "normalize_segments (xs @ ys) allow res =
     normalize_segments ys allow (normalize_segments xs allow res)"
  by (induction xs arbitrary: res allow) simp_all

lemma dots_facts:
  "js ''..'' \<noteq> []" "js ''..'' \<noteq> js ''.''" "0x2F \<notin> set (js ''..'')" "js ''.'' \<noteq> []"
  "js ''/'' = [0x2F]"
  by (simp_all add: js_def)

lemma set_dropWhile_butlast:
  "set (dropWhile P (butlast xs)) \<subseteq> set (dropWhile P xs)"
proof (induction xs)
  case Nil
  show ?case by simp
next
  case (Cons x xs)
  then show ?case by (auto dest: in_set_butlastD)
qed

lemma normal_segments_butlast:
  "normal_segments allow res \<Longrightarrow> normal_segments allow (butlast res)"
  using set_dropWhile_butlast [of "\<lambda>s. s = js ''..''" res]
  by (auto simp: normal_segments_def list_all_iff dest: in_set_butlastD)

lemma all_dots:
  assumes n: "normal_segments True res" and l: "res = [] \<or> last res = js ''..''"
  shows "\<forall>s\<in>set res. s = js ''..''"
proof -
  have "dropWhile (\<lambda>s. s = js ''..'') res = []"
  proof (rule ccontr)
    assume ne: "dropWhile (\<lambda>s. s = js ''..'') res \<noteq> []"
    then have "res \<noteq> []" by auto
    with l have "last res = js ''..''" by simp
    moreover have "last (dropWhile (\<lambda>s. s = js ''..'') res) = last res"
      using ne by (metis last_appendR takeWhile_dropWhile_id)
    ultimately have "js ''..'' \<in> set (dropWhile (\<lambda>s. s = js ''..'') res)"
      using ne last_in_set by metis
    with n show False by (simp add: normal_segments_def)
  qed
  then show ?thesis by (simp add: dropWhile_eq_Nil_conv)
qed

lemma normal_segments_snoc_dots:
  assumes n: "normal_segments True res" and l: "res = [] \<or> last res = js ''..''"
  shows "normal_segments True (res @ [js ''..''])"
proof -
  from all_dots [OF n l] have "dropWhile (\<lambda>s. s = js ''..'') (res @ [js ''..'']) = []"
    by (simp add: dropWhile_eq_Nil_conv)
  then show ?thesis
    using n by (simp add: normal_segments_def dots_facts)
qed

lemma normal_segments_snoc:
  assumes n: "normal_segments allow res"
    and s: "seg \<noteq> []" "seg \<noteq> js ''.''" "seg \<noteq> js ''..''" "0x2F \<notin> set seg"
  shows "normal_segments allow (res @ [seg])"
  using n s by (auto simp: normal_segments_def dropWhile_append split: if_splits)

lemma normalize_segments_normal:
  "normal_segments allow res \<Longrightarrow> \<forall>s\<in>set segs. 0x2F \<notin> set s \<Longrightarrow>
     normal_segments allow (normalize_segments segs allow res)"
proof (induction segs allow res rule: normalize_segments.induct)
  case (1 allow res)
  then show ?case by simp
next
  case (2 seg segs allow res)
  show ?case
  proof (cases "seg = [] \<or> seg = js ''.''")
    case True
    then show ?thesis using "2.IH"(1) "2.prems" by simp
  next
    case False
    note nf = False
    show ?thesis
    proof (cases "seg = js ''..''")
      case True
      show ?thesis
      proof (cases "res \<noteq> [] \<and> last res \<noteq> js ''..''")
        case True
        then show ?thesis
          using "2.IH"(2) "2.prems" nf \<open>seg = js ''..''\<close> by (simp add: normal_segments_butlast)
      next
        case False
        show ?thesis
        proof (cases allow)
          case True
          have "normal_segments True (res @ [js ''..''])"
            using normal_segments_snoc_dots [of res] "2.prems"(1) False True by auto
          then show ?thesis
            using "2.IH"(3) "2.prems" nf \<open>seg = js ''..''\<close> False True by auto
        next
          case False
          then show ?thesis
            using "2.IH"(4) "2.prems" nf \<open>seg = js ''..''\<close>
              \<open>\<not> (res \<noteq> [] \<and> last res \<noteq> js ''..'')\<close>
            by auto
        qed
      qed
    next
      case False
      have "normal_segments allow (res @ [seg])"
        using normal_segments_snoc "2.prems" nf False by simp
      then show ?thesis using "2.IH"(5) "2.prems" nf False by simp
    qed
  qed
qed

lemma normalize_segments_identity:
  "normal_segments allow (res @ segs) \<Longrightarrow> normalize_segments segs allow res = res @ segs"
proof (induction segs arbitrary: res)
  case Nil
  show ?case by simp
next
  case (Cons seg segs)
  from Cons.prems have seg: "seg \<noteq> []" "seg \<noteq> js ''.''"
    by (simp_all add: normal_segments_def)
  have n': "normal_segments allow ((res @ [seg]) @ segs)" using Cons.prems by simp
  show ?case
  proof (cases "seg = js ''..''")
    case True
    have allow: allow
    proof (rule ccontr)
      assume "\<not> allow"
      with Cons.prems True show False by (simp add: normal_segments_def)
    qed
    have "\<forall>s\<in>set res. s = js ''..''"
    proof (rule ccontr)
      assume "\<not> (\<forall>s\<in>set res. s = js ''..'')"
      then obtain s where "s \<in> set res" "s \<noteq> js ''..''" by blast
      then have "dropWhile (\<lambda>s. s = js ''..'') (res @ seg # segs) =
          dropWhile (\<lambda>s. s = js ''..'') res @ seg # segs"
        by (rule dropWhile_append1)
      with Cons.prems True allow show False by (simp add: normal_segments_def)
    qed
    then have "\<not> (res \<noteq> [] \<and> last res \<noteq> js ''..'')" using last_in_set by blast
    then show ?thesis
      using Cons.IH [OF n'] seg True allow by auto
  next
    case False
    then show ?thesis using Cons.IH [OF n'] seg by simp
  qed
qed

lemma normal_segments_Nil: "normal_segments allow []"
  by (simp add: normal_segments_def)

lemma normal_segments_nonempty: "normal_segments allow ns \<Longrightarrow> s \<in> set ns \<Longrightarrow> s \<noteq> []"
  by (auto simp: normal_segments_def list_all_iff)

lemma normal_segments_no_slash: "normal_segments allow ns \<Longrightarrow> \<forall>s\<in>set ns. 0x2F \<notin> set s"
  by (auto simp: normal_segments_def list_all_iff)

lemma intercalate_Nil_iff:
  "\<forall>s\<in>set ns. s \<noteq> [] \<Longrightarrow> intercalate sep ns = [] \<longleftrightarrow> ns = []"
  by (induction sep ns rule: intercalate.induct) auto

lemma hd_intercalate: "ns \<noteq> [] \<Longrightarrow> hd ns \<noteq> [] \<Longrightarrow> hd (intercalate sep ns) = hd (hd ns)"
  by (induction sep ns rule: intercalate.induct) auto

lemma last_intercalate:
  "ns \<noteq> [] \<Longrightarrow> \<forall>s\<in>set ns. s \<noteq> [] \<Longrightarrow> last (intercalate sep ns) = last (last ns)"
proof (induction sep ns rule: intercalate.induct)
  case (1 sep)
  then show ?case by simp
next
  case (2 sep x)
  then show ?case by simp
next
  case (3 sep x y ys)
  then have "intercalate sep (y # ys) \<noteq> []"
    using intercalate_Nil_iff [of "y # ys" sep] by simp
  with 3 show ?case by simp
qed

lemma split_Cons_sep: "split (sep # t) sep = [] # split t sep"
  using split_not_Nil [of t sep] by (cases "split t sep") auto

lemma normalize_segments_skip_empty:
  "normalize_segments ([] # segs) allow res = normalize_segments segs allow res"
  "normalize_segments (segs @ [[]]) allow res = normalize_segments segs allow res"
  by (simp_all add: normalize_segments_append)

lemma normalize_built:
  assumes n: "normal_segments (\<not> isAbsolute) ns" and ne: "ns \<noteq> []"
  shows "posix_normalize
           ((if isAbsolute then js ''/'' else []) @ intercalate (js ''/'') ns @
            (if trailingSeparator then js ''/'' else [])) =
         (if isAbsolute then js ''/'' else []) @ intercalate (js ''/'') ns @
         (if trailingSeparator then js ''/'' else [])"
proof -
  let ?q = "intercalate (js ''/'') ns"
  let ?r = "(if isAbsolute then js ''/'' else []) @ ?q @ (if trailingSeparator then js ''/'' else [])"
  have slash: "js ''/'' = [0x2F]" by (simp add: js_def)
  have nonempty: "\<forall>s\<in>set ns. s \<noteq> []" using n normal_segments_nonempty by blast
  have noslash: "\<forall>s\<in>set ns. 0x2F \<notin> set s" using n by (rule normal_segments_no_slash)
  have q: "?q \<noteq> []" using nonempty ne by (simp add: intercalate_Nil_iff)
  have hdq: "hd ?q \<noteq> 0x2F"
  proof -
    have "hd ns \<in> set ns" using ne by simp
    then have "hd ns \<noteq> []" "0x2F \<notin> set (hd ns)" using nonempty noslash by auto
    then have "hd (hd ns) \<noteq> 0x2F" by (metis hd_in_set)
    then show ?thesis using hd_intercalate [OF ne \<open>hd ns \<noteq> []\<close>] by simp
  qed
  have lastq: "last ?q \<noteq> 0x2F"
  proof -
    have "last ns \<in> set ns" using ne by simp
    then have "last ns \<noteq> []" "0x2F \<notin> set (last ns)" using nonempty noslash by auto
    then have "last (last ns) \<noteq> 0x2F" by (metis last_in_set)
    then show ?thesis using last_intercalate [OF ne nonempty] by simp
  qed
  have r: "?r \<noteq> []" using q by simp
  have hdr: "(hd ?r = 0x2F) = isAbsolute" using q hdq by (simp add: slash)
  have lastr: "(last ?r = 0x2F) = trailingSeparator" using q lastq by (simp add: slash)
  have splitq: "split ?q 0x2F = ns"
    using split_intercalate [OF ne noslash] by (simp add: slash)
  have splitr: "split ?r 0x2F =
      (if isAbsolute then [[]] else []) @ ns @ (if trailingSeparator then [[]] else [])"
  proof -
    have a: "split (?q @ (if trailingSeparator then js ''/'' else [])) 0x2F =
        ns @ (if trailingSeparator then [[]] else [])"
      using splitq by (simp add: slash split_snoc_sep)
    show ?thesis
    proof (cases isAbsolute)
      case True
      then show ?thesis using a by (simp add: slash split_Cons_sep del: split.simps)
    next
      case False
      then show ?thesis using a by simp
    qed
  qed
  have id: "normalize_segments ns (\<not> isAbsolute) [] = ns"
    using normalize_segments_identity [of "\<not> isAbsolute" "[]" ns] n by simp
  have "normalize_segments (split ?r 0x2F) (\<not> isAbsolute) [] = ns"
    unfolding splitr
    using id
    by (cases isAbsolute; cases trailingSeparator)
       (simp_all add: normalize_segments_skip_empty normalize_segments_append)
  then have ns: "normalizeString ?r (\<not> isAbsolute) = ?q"
    by (simp add: normalizeString_def)
  show ?thesis
    unfolding posix_normalize_def Let_def hdr lastr ns
    using r q by simp
qed

lemma posix_normalize_shape:
  assumes "p \<noteq> []"
  shows "\<exists>ns. normal_segments (hd p \<noteq> 0x2F) ns \<and>
           posix_normalize p =
             (if ns = [] then
                (if hd p = 0x2F then js ''/'' else if last p = 0x2F then js ''./'' else js ''.'')
              else (if hd p = 0x2F then js ''/'' else []) @ intercalate (js ''/'') ns @
                   (if last p = 0x2F then js ''/'' else []))"
proof -
  let ?ns = "normalize_segments (split p 0x2F) (hd p \<noteq> 0x2F) []"
  have n: "normal_segments (hd p \<noteq> 0x2F) ?ns"
    by (rule normalize_segments_normal [OF normal_segments_Nil])
       (auto dest: split_segments_no_sep)
  have e: "intercalate (js ''/'') ?ns = [] \<longleftrightarrow> ?ns = []"
    using n normal_segments_nonempty by (intro intercalate_Nil_iff) blast
  have "posix_normalize p =
             (if ?ns = [] then
                (if hd p = 0x2F then js ''/'' else if last p = 0x2F then js ''./'' else js ''.'')
              else (if hd p = 0x2F then js ''/'' else []) @ intercalate (js ''/'') ?ns @
                   (if last p = 0x2F then js ''/'' else []))"
    using assms e by (simp add: posix_normalize_def normalizeString_def Let_def)
  with n show ?thesis by blast
qed

lemma posix_normalize_literals:
  "posix_normalize (js ''/'') = js ''/''" "posix_normalize (js ''./'') = js ''./''"
  "posix_normalize (js ''.'') = js ''.''"
  by (simp_all add: posix_normalize_def normalizeString_def js_def)

lemma posix_normalize_idem: "posix_normalize (posix_normalize p) = posix_normalize p"
proof (cases "p = []")
  case True
  have "posix_normalize [] = js ''.''" by (simp add: posix_normalize_def)
  then show ?thesis using True by (simp add: posix_normalize_literals)
next
  case False
  from posix_normalize_shape [OF False] obtain ns where
    n: "normal_segments (hd p \<noteq> 0x2F) ns"
    and s: "posix_normalize p =
             (if ns = [] then
                (if hd p = 0x2F then js ''/'' else if last p = 0x2F then js ''./'' else js ''.'')
              else (if hd p = 0x2F then js ''/'' else []) @ intercalate (js ''/'') ns @
                   (if last p = 0x2F then js ''/'' else []))"
    by blast
  show ?thesis
  proof (cases "ns = []")
    case True
    then show ?thesis unfolding s by (simp add: posix_normalize_literals)
  next
    case False
    have n': "normal_segments (\<not> (hd p = 0x2F)) ns" using n by simp
    show ?thesis
      unfolding s using False normalize_built [OF n' False, of "last p = 0x2F"] by simp
  qed
qed

lemma posix_normalize_not_Nil: "posix_normalize p \<noteq> []"
proof (cases "p = []")
  case True
  then show ?thesis by (simp add: posix_normalize_def js_def)
next
  case False
  from posix_normalize_shape [OF False] obtain ns where
    s: "posix_normalize p =
             (if ns = [] then
                (if hd p = 0x2F then js ''/'' else if last p = 0x2F then js ''./'' else js ''.'')
              else (if hd p = 0x2F then js ''/'' else []) @ intercalate (js ''/'') ns @
                   (if last p = 0x2F then js ''/'' else []))"
    and n: "normal_segments (hd p \<noteq> 0x2F) ns"
    by blast
  have "ns \<noteq> [] \<Longrightarrow> intercalate (js ''/'') ns \<noteq> []"
    using n normal_segments_nonempty intercalate_Nil_iff by blast
  then show ?thesis unfolding s by (auto simp: js_def)
qed

lemma posix_join_empty_component: "dir \<noteq> [] \<Longrightarrow> posix_join [dir, []] = posix_normalize dir"
  by (simp add: posix_join_def)

lemma posix_join_normalized: "posix_normalize (posix_join args) = posix_join args"
  by (simp add: posix_join_def Let_def posix_normalize_idem posix_normalize_literals)

lemma posix_join_not_Nil: "posix_join args \<noteq> []"
  by (simp add: posix_join_def Let_def posix_normalize_not_Nil) (simp add: js_def)

lemma posix_join_join_empty: "posix_join [posix_join args, []] = posix_join args"
  using posix_join_empty_component [OF posix_join_not_Nil] posix_join_normalized by simp

section \<open>Empty sides\<close>

text \<open>
  C10. The empty string passes the safety test, so the line \<open>:\<close> yields the mapping
  \<open>("", "")\<close> and the line \<open>:dest\<close> yields \<open>("", "dest")\<close>, with no warning. In composition
  the path of an empty component is \<open>join(dir, "")\<close>: it is \<open>dir\<close> normalized, and for the
  directories of a run, which \<open>program\<close> itself makes with \<open>join\<close>, it is the directory
  itself. So \<open>move_paths\<close>, with the platform's POSIX \<open>Path\<close>, from the clone directory
  \<open>join(temp_dir, source_name)\<close> to the target directory \<open>join(temp_dir, target_name)\<close>:
  for the mapping \<open>("", "")\<close> it makes the directory that holds the target directory and
  renames the clone directory itself to the target directory itself; for \<open>("", "dest")\<close>
  it renames the clone directory itself to \<open>dest\<close> in the target directory.
\<close>

theorem empty_side_is_accepted:
  "\<not> includes_str [] (js ''..'') \<and> \<not> startsWith [] (js ''/'') \<and>
   parse_sync_paths [js '':''] [] (tr, w) = (Inr [([], [])], (tr, w)) \<and>
   parse_sync_paths [js '':dest''] [] (tr, w) = (Inr [([], js ''dest'')], (tr, w)) \<and>
   (dir \<noteq> [] \<longrightarrow> join posix_path [dir, []] = posix_normalize dir) \<and>
   join posix_path [join posix_path [temp_dir, name], []] = join posix_path [temp_dir, name] \<and>
   (path sv = posix_path \<and> sync_paths inputs = [([], [])] \<and>
    makeDirectory (fs sv) (posix_dirname (posix_join [temp_dir, target_name])) world = (Inr (), made) \<and>
    rename (fs sv) (posix_join [temp_dir, source_name]) (posix_join [temp_dir, target_name]) made =
      (Inr (), moved) \<longrightarrow>
    move_paths sv inputs (posix_join [temp_dir, source_name]) (posix_join [temp_dir, target_name])
      (trace, world) =
      (Inr (),
       (trace @
        [FsMakeDirectory (posix_dirname (posix_join [temp_dir, target_name])),
         FsRename (posix_join [temp_dir, source_name]) (posix_join [temp_dir, target_name])],
        moved))) \<and>
   (path sv = posix_path \<and> sync_paths inputs = [([], js ''dest'')] \<and>
    makeDirectory (fs sv)
      (posix_dirname (posix_join [posix_join [temp_dir, target_name], js ''dest''])) world = (Inr (), made) \<and>
    rename (fs sv) (posix_join [temp_dir, source_name])
      (posix_join [posix_join [temp_dir, target_name], js ''dest'']) made = (Inr (), moved) \<longrightarrow>
    move_paths sv inputs (posix_join [temp_dir, source_name]) (posix_join [temp_dir, target_name])
      (trace, world) =
      (Inr (),
       (trace @
        [FsMakeDirectory
           (posix_dirname (posix_join [posix_join [temp_dir, target_name], js ''dest''])),
         FsRename (posix_join [temp_dir, source_name])
           (posix_join [posix_join [temp_dir, target_name], js ''dest''])],
        moved)))"
proof (intro conjI)
  show "\<not> includes_str [] (js ''..'')" by (simp add: js_def)
  show "\<not> startsWith [] (js ''/'')" by (simp add: startsWith_def js_def)
  show "parse_sync_paths [js '':''] [] (tr, w) = (Inr [([], [])], (tr, w))"
    by (simp only: parse_sync_paths_eq)
       (simp add: skipped_line_def extracted_sides_def unsafe_path_def string_eval)
  show "parse_sync_paths [js '':dest''] [] (tr, w) = (Inr [([], js ''dest'')], (tr, w))"
    by (simp only: parse_sync_paths_eq)
       (simp add: skipped_line_def extracted_sides_def unsafe_path_def string_eval)
  show "dir \<noteq> [] \<longrightarrow> join posix_path [dir, []] = posix_normalize dir"
    by (simp add: posix_path_simps posix_join_empty_component)
  show "join posix_path [join posix_path [temp_dir, name], []] = join posix_path [temp_dir, name]"
    by (simp only: posix_path_simps posix_join_join_empty)
  show "path sv = posix_path \<and> sync_paths inputs = [([], [])] \<and>
    makeDirectory (fs sv) (posix_dirname (posix_join [temp_dir, target_name])) world = (Inr (), made) \<and>
    rename (fs sv) (posix_join [temp_dir, source_name]) (posix_join [temp_dir, target_name]) made =
      (Inr (), moved) \<longrightarrow>
    move_paths sv inputs (posix_join [temp_dir, source_name]) (posix_join [temp_dir, target_name])
      (trace, world) =
      (Inr (),
       (trace @
        [FsMakeDirectory (posix_dirname (posix_join [temp_dir, target_name])),
         FsRename (posix_join [temp_dir, source_name]) (posix_join [temp_dir, target_name])],
        moved))"
    by (simp add: move_paths_def Let_def flatMap_apply call_apply succeed_apply posix_path_simps
        posix_join_join_empty)
  show "path sv = posix_path \<and> sync_paths inputs = [([], js ''dest'')] \<and>
    makeDirectory (fs sv)
      (posix_dirname (posix_join [posix_join [temp_dir, target_name], js ''dest''])) world = (Inr (), made) \<and>
    rename (fs sv) (posix_join [temp_dir, source_name])
      (posix_join [posix_join [temp_dir, target_name], js ''dest'']) made = (Inr (), moved) \<longrightarrow>
    move_paths sv inputs (posix_join [temp_dir, source_name]) (posix_join [temp_dir, target_name])
      (trace, world) =
      (Inr (),
       (trace @
        [FsMakeDirectory
           (posix_dirname (posix_join [posix_join [temp_dir, target_name], js ''dest''])),
         FsRename (posix_join [temp_dir, source_name])
           (posix_join [posix_join [temp_dir, target_name], js ''dest''])],
        moved))"
    by (simp add: move_paths_def Let_def flatMap_apply call_apply succeed_apply posix_path_simps
        posix_join_join_empty)
qed

theorem empty_side_is_accepted_witness:
  "join posix_path [js ''/tmp/cross-repo-sync/target'', []] = js ''/tmp/cross-repo-sync/target'' \<and>
   join posix_path [join posix_path [js ''/tmp/cross-repo-sync'', js ''source_repo''], []] =
     js ''/tmp/cross-repo-sync/source_repo'' \<and>
   move_paths (test_services TestCore)
     \<lparr>personal_access_token = js ''t'', sync_paths = [([], [])],
      source_repo = js ''o/s'', destination_repo = js ''o/d'', dry_run = False\<rparr>
     (js ''/tmp/cross-repo-sync/source_repo'') (js ''/tmp/cross-repo-sync/target'')
     ([], [(js ''/tmp/cross-repo-sync/source_repo/f'', js ''F'')]) =
     (Inr (),
      ([FsMakeDirectory (js ''/tmp/cross-repo-sync''),
        FsRename (js ''/tmp/cross-repo-sync/source_repo'') (js ''/tmp/cross-repo-sync/target'')],
       [(js ''/tmp/cross-repo-sync/target/f'', js ''F'')]))"
proof -
  let ?sv = "test_services TestCore :: (volume, mock_error) services"
  let ?inputs = "\<lparr>personal_access_token = js ''t'', sync_paths = [([], [])],
      source_repo = js ''o/s'', destination_repo = js ''o/d'', dry_run = False\<rparr>"
  let ?vol = "[(js ''/tmp/cross-repo-sync/source_repo/f'', js ''F'')]"
  let ?moved = "[(js ''/tmp/cross-repo-sync/target/f'', js ''F'')]"
  have ne: "js ''/tmp/cross-repo-sync/target'' \<noteq> []" by (simp add: js_def)
  have n: "posix_normalize (js ''/tmp/cross-repo-sync/target'') = js ''/tmp/cross-repo-sync/target''"
    using posix_join_normalized [of "[js ''/tmp/cross-repo-sync'', js ''target'']"]
    by (simp only: test_dirs)
  have d: "posix_dirname (js ''/tmp/cross-repo-sync/target'') = js ''/tmp/cross-repo-sync''"
    by (simp add: path_eval)
  have r: "vol_rename (js ''/tmp/cross-repo-sync/source_repo'') (js ''/tmp/cross-repo-sync/target'') ?vol =
      (Inr (), ?moved)"
    by (simp add: vol_eval)
  have h: "path ?sv = posix_path \<and> sync_paths ?inputs = [([], [])] \<and>
    makeDirectory (fs ?sv) (posix_dirname (posix_join [js ''/tmp/cross-repo-sync'', js ''target''])) ?vol =
      (Inr (), ?vol) \<and>
    rename (fs ?sv) (posix_join [js ''/tmp/cross-repo-sync'', js ''source_repo''])
      (posix_join [js ''/tmp/cross-repo-sync'', js ''target'']) ?vol = (Inr (), ?moved)"
    by (simp add: test_services_simps mockFileSystemLayer_simps test_dirs r)
  note t = empty_side_is_accepted
    [where dir = "js ''/tmp/cross-repo-sync/target''" and temp_dir = "js ''/tmp/cross-repo-sync''"
       and name = "js ''source_repo''" and sv = ?sv and inputs = ?inputs and world = ?vol and made = ?vol
       and moved = ?moved and source_name = "js ''source_repo''" and target_name = "js ''target''"
       and trace = "[]"]
  have "join posix_path [js ''/tmp/cross-repo-sync/target'', []] =
      posix_normalize (js ''/tmp/cross-repo-sync/target'')"
    by (rule t [THEN conjunct2, THEN conjunct2, THEN conjunct2, THEN conjunct2, THEN conjunct1,
          THEN mp, OF ne])
  moreover have "join posix_path [join posix_path [js ''/tmp/cross-repo-sync'', js ''source_repo''], []] =
      join posix_path [js ''/tmp/cross-repo-sync'', js ''source_repo'']"
    by (rule t [THEN conjunct2, THEN conjunct2, THEN conjunct2, THEN conjunct2, THEN conjunct2,
          THEN conjunct1])
  moreover have "move_paths ?sv ?inputs (posix_join [js ''/tmp/cross-repo-sync'', js ''source_repo''])
      (posix_join [js ''/tmp/cross-repo-sync'', js ''target'']) ([], ?vol) =
      (Inr (),
       ([] @
        [FsMakeDirectory (posix_dirname (posix_join [js ''/tmp/cross-repo-sync'', js ''target''])),
         FsRename (posix_join [js ''/tmp/cross-repo-sync'', js ''source_repo''])
           (posix_join [js ''/tmp/cross-repo-sync'', js ''target''])],
        ?moved))"
    by (rule t [THEN conjunct2, THEN conjunct2, THEN conjunct2, THEN conjunct2, THEN conjunct2,
          THEN conjunct2, THEN conjunct1, THEN mp, OF h])
  ultimately show ?thesis by (simp add: n posix_path_simps test_dirs d)
qed

end
